theory Spec2Isabelle
  imports Complex_Main "HOL-Library.Log_Nat" "HOL-Library.Monad_Syntax" "HOL-Library.AList"
    "HOL-Library.Product_Lexorder"
begin

section \<open>Text\<close>

text \<open>
  A Python \<open>str\<close> is a sequence of Unicode code points, so a string is a list of natural
  numbers. \<open>ascii\<close> turns an Isabelle string literal into such a list.

  The character tables below are exact on the alphabet the two patterns of
  \<open>extract_doses_2.0.py\<close> can see a difference on: ASCII, the white space of
  \<open>str.isspace\<close> (which is also \<open>\s\<close>), the decimal digits of \<open>str.isdecimal\<close> (which
  is also \<open>\d\<close>), and the seven code points that the case-insensitive pattern identifies
  with an ASCII letter or with the micro sign: U+00B5 (micro sign, 181), U+03BC (Greek
  small mu, 956), U+039C (Greek capital mu, 924), U+0130 (capital I with dot, 304), U+0131
  (dotless i, 305), U+017F (long s, 383) and U+212A (Kelvin sign, 8490). Every other code
  point is treated as an uncased symbol that is neither a digit, nor white space, nor a word
  character.
\<close>

type_synonym codepoint = nat
type_synonym pystr = "codepoint list"

definition ascii :: "string \<Rightarrow> pystr" where
  "ascii s = map of_char s"

definition isspace :: "codepoint \<Rightarrow> bool" where
  "isspace c \<longleftrightarrow>
     (9 \<le> c \<and> c \<le> 13) \<or> (28 \<le> c \<and> c \<le> 32) \<or> c = 133 \<or> c = 160 \<or> c = 5760 \<or>
     (8192 \<le> c \<and> c \<le> 8202) \<or> c = 8232 \<or> c = 8233 \<or> c = 8239 \<or> c = 8287 \<or> c = 12288"

text \<open>
  The decimal digits beyond ASCII (Unicode 14.0, the character database of Python 3.11)
  come in runs of ten code points, from the digit zero to the digit nine of a script. These
  are the code points of the zeros, in ascending order.
\<close>

definition digit_zeros :: "codepoint list" where
  "digit_zeros =
     [1632, 1776, 1984, 2406, 2534, 2662, 2790, 2918, 3046, 3174, 3302, 3430, 3558, 3664, 3792,
      3872, 4160, 4240, 6112, 6160, 6470, 6608, 6784, 6800, 6992, 7088, 7232, 7248, 42528, 43216,
      43264, 43472, 43504, 43600, 44016, 65296, 66720, 68912, 69734, 69872, 69942, 70096, 70384,
      70736, 70864, 71248, 71360, 71472, 71904, 72016, 72784, 73040, 73120, 92768, 92864, 93008,
      120782, 120792, 120802, 120812, 120822, 123200, 123632, 125264, 130032]"

text \<open>\<open>\d\<close> in a pattern on \<open>str\<close>, and \<open>str.isdecimal\<close>.\<close>

definition isdigit :: "codepoint \<Rightarrow> bool" where
  "isdigit c \<longleftrightarrow>
     (if c < 128 then 48 \<le> c \<and> c \<le> 57
      else list_ex (\<lambda>z. z \<le> c \<and> c \<le> z + 9) digit_zeros)"

text \<open>The value of a decimal digit, as \<open>float\<close> and \<open>int\<close> read it.\<close>

definition digit_value :: "codepoint \<Rightarrow> nat" where
  "digit_value c =
     (if c < 128 then c - 48
      else case find (\<lambda>z. z \<le> c \<and> c \<le> z + 9) digit_zeros of Some z \<Rightarrow> c - z | None \<Rightarrow> 0)"

text \<open>\<open>\w\<close>: letters, digits and the underscore.\<close>

definition isword :: "codepoint \<Rightarrow> bool" where
  "isword c \<longleftrightarrow>
     (48 \<le> c \<and> c \<le> 57) \<or> (65 \<le> c \<and> c \<le> 90) \<or> c = 95 \<or> (97 \<le> c \<and> c \<le> 122) \<or>
     c = 181 \<or> c = 304 \<or> c = 305 \<or> c = 383 \<or> c = 924 \<or> c = 956 \<or> c = 8490 \<or> isdigit c"

text \<open>
  \<open>str.lower()\<close>, one code point at a time: the capital I with dot becomes \<open>i\<close> followed by
  the combining dot above (775). The table is that of the alphabet above, in which every
  token lies that a unit or a route alternative matches; a cased letter outside it, which
  \<open>str.lower\<close> would lower, is left as it is.
\<close>

definition lower_cp :: "codepoint \<Rightarrow> pystr" where
  "lower_cp c =
     (if 65 \<le> c \<and> c \<le> 90 then [c + 32]
      else if c = 304 then [105, 775]
      else if c = 8490 then [107]
      else if c = 924 then [956]
      else [c])"

definition lower :: "pystr \<Rightarrow> pystr" where
  "lower s = concat (map lower_cp s)"

definition strip :: "pystr \<Rightarrow> pystr" where
  "strip s = rev (dropWhile isspace (rev (dropWhile isspace s)))"

text \<open>\<open>normalize\<close>: \<open>re.sub(r"[- ,]", "", name.lower())\<close>.\<close>

definition normalize :: "pystr \<Rightarrow> pystr" where
  "normalize name = filter (\<lambda>c. c \<noteq> 45 \<and> c \<noteq> 32 \<and> c \<noteq> 44) (lower name)"

section \<open>Regular expressions\<close>

text \<open>
  Python's \<open>re\<close> is a backtracking matcher. A pattern applied to a text returns the list of
  all its ways to match a prefix of the text, each as the pair of the matched part and the
  remaining text, in the order in which the matcher tries them; a sequence of patterns is
  the list monad's bind. The match that \<open>re\<close> reports is the head of the list.

  A greedy repetition of a character class tries the longest run first, a lazy one the
  shortest.
\<close>

definition greedy_star :: "(codepoint \<Rightarrow> bool) \<Rightarrow> pystr \<Rightarrow> (pystr \<times> pystr) list" where
  "greedy_star P s = map (\<lambda>k. (take k s, drop k s)) (rev [0..<Suc (length (takeWhile P s))])"

definition greedy_plus :: "(codepoint \<Rightarrow> bool) \<Rightarrow> pystr \<Rightarrow> (pystr \<times> pystr) list" where
  "greedy_plus P s = map (\<lambda>k. (take k s, drop k s)) (rev [1..<Suc (length (takeWhile P s))])"

definition lazy_plus :: "(codepoint \<Rightarrow> bool) \<Rightarrow> pystr \<Rightarrow> (pystr \<times> pystr) list" where
  "lazy_plus P s = map (\<lambda>k. (take k s, drop k s)) [1..<Suc (length (takeWhile P s))]"

definition literal :: "pystr \<Rightarrow> pystr \<Rightarrow> (pystr \<times> pystr) list" where
  "literal w s = (if take (length w) s = w then [(w, drop (length w) s)] else [])"

text \<open>\<open>\d+(?:\.\d+)?\<close>\<close>

definition number :: "pystr \<Rightarrow> (pystr \<times> pystr) list" where
  "number s = do {
     (a, s1) \<leftarrow> greedy_plus isdigit s;
     (b, s2) \<leftarrow> (do { (d, t1) \<leftarrow> literal [46] s1; (f, t2) \<leftarrow> greedy_plus isdigit t1; [(d @ f, t2)] })
                 @ [([], s1)];
     [(a @ b, s2)] }"

text \<open>\<open>[a-z\<mu>]\<close> with the micro sign U+00B5, as the source file has it.\<close>

definition unit_letter :: "codepoint \<Rightarrow> bool" where
  "unit_letter c \<longleftrightarrow> (97 \<le> c \<and> c \<le> 122) \<or> c = 181"

text \<open>The pattern of \<open>analyze_doses\<close>: \<open>(\d+(?:\.\d+)?)\s*([a-z\<mu>]+)\<close>, case-sensitive.\<close>

definition parse_pattern :: "pystr \<Rightarrow> ((pystr \<times> pystr) \<times> pystr) list" where
  "parse_pattern s = do {
     (num, s1) \<leftarrow> number s;
     (sp, s2) \<leftarrow> greedy_star isspace s1;
     (unit, s3) \<leftarrow> greedy_plus unit_letter s2;
     [((num, unit), s3)] }"

text \<open>
  Under \<open>re.IGNORECASE\<close> a letter \<open>p\<close> of the pattern matches a character \<open>c\<close> of the text
  when the simple lower case of \<open>c\<close> is the lower case of \<open>p\<close> or one of the characters
  that \<open>re\<close> holds equivalent to it: \<open>i\<close> and the dotless i, \<open>s\<close> and the long s, the micro
  sign and the Greek mu.
\<close>

definition re_lower :: "codepoint \<Rightarrow> codepoint" where
  "re_lower c =
     (if 65 \<le> c \<and> c \<le> 90 then c + 32
      else if c = 304 then 105
      else if c = 8490 then 107
      else if c = 924 then 956
      else c)"

definition case_fixes :: "codepoint \<Rightarrow> codepoint list" where
  "case_fixes c =
     (if c = 105 then [305] else if c = 305 then [105]
      else if c = 115 then [383] else if c = 383 then [115]
      else if c = 181 then [956] else if c = 956 then [181]
      else [])"

definition ci_char :: "codepoint \<Rightarrow> codepoint \<Rightarrow> bool" where
  "ci_char p c \<longleftrightarrow> re_lower c \<in> set (re_lower p # case_fixes (re_lower p))"

definition literal_ci :: "pystr \<Rightarrow> pystr \<Rightarrow> (pystr \<times> pystr) list" where
  "literal_ci w s =
     (if length w \<le> length s \<and> list_all2 ci_char w (take (length w) s)
      then [(take (length w) s, drop (length w) s)] else [])"

text \<open>
  The unit alternatives \<open>mg|g|ug|\<mu>g|ml|drops?|capsules?\<close> in the order in which they are
  tried: the optional \<open>s\<close> is greedy, so a plural is tried before its singular.
\<close>

definition unit_words :: "pystr list" where
  "unit_words =
     [ascii ''mg'', ascii ''g'', ascii ''ug'', [181, 103], ascii ''ml'',
      ascii ''drops'', ascii ''drop'', ascii ''capsules'', ascii ''capsule'']"

definition units :: "pystr \<Rightarrow> (pystr \<times> pystr) list" where
  "units s = concat (map (\<lambda>w. literal_ci w s) unit_words)"

definition route_words :: "pystr list" where
  "route_words = map ascii
     [''oral'', ''IM'', ''IV'', ''SC'', ''intranasal'', ''smoked'', ''insufflated'', ''rectal'',
      ''subcutaneous'', ''intravenous'', ''buccal'', ''sublingual'', ''intramuscular'',
      ''intravenous'', ''subcutaneous'']"

definition routes :: "pystr \<Rightarrow> (pystr \<times> pystr) list" where
  "routes s = concat (map (\<lambda>w. literal_ci w s) route_words)"

text \<open>\<open>[A-Za-z0-9,\-\s]\<close> under \<open>re.IGNORECASE\<close>.\<close>

definition sub_class :: "codepoint \<Rightarrow> bool" where
  "sub_class c \<longleftrightarrow>
     (let l = re_lower c
      in (97 \<le> l \<and> l \<le> 122) \<or> l = 305 \<or> l = 383 \<or> (48 \<le> l \<and> l \<le> 57)
         \<or> l = 44 \<or> l = 45 \<or> isspace l)"

text \<open>\<open>$\<close> matches at the end of the text and before a line feed that ends the text.\<close>

definition end_anchor :: "pystr \<Rightarrow> (pystr \<times> pystr) list" where
  "end_anchor s = (if s = [] \<or> s = [10] then [([], s)] else [])"

text \<open>The pattern of \<open>extract_doses_from_text\<close>, tried at the start of \<open>s\<close>.\<close>

definition dose_pattern :: "pystr \<Rightarrow> ((pystr \<times> pystr \<times> pystr \<times> pystr) \<times> pystr) list" where
  "dose_pattern s = do {
     (dose_amount, s1) \<leftarrow> number s;
     (sp1, s2) \<leftarrow> greedy_star isspace s1;
     (unit, s3) \<leftarrow> units s2;
     (sp2, s4) \<leftarrow> greedy_star isspace s3;
     (method, s5) \<leftarrow> routes s4;
     (sp3, s6) \<leftarrow> greedy_star isspace s5;
     (sub_name, s7) \<leftarrow> lazy_plus sub_class s6;
     (tl, s8) \<leftarrow> (do { (sp4, t) \<leftarrow> greedy_star isspace s7; literal [40] t }) @ end_anchor s7;
     [((dose_amount, unit, method, sub_name), s8)] }"

text \<open>
  \<open>findall\<close> scans the text from left to right. Where the pattern matches, the groups are
  collected and the scan resumes at the end of the match: \<open>skip\<close> counts the characters of
  the current match that are still to be passed over. Where it does not match, the scan
  moves on by one character.
\<close>

fun findall :: "nat \<Rightarrow> pystr \<Rightarrow> (pystr \<times> pystr \<times> pystr \<times> pystr) list" where
  "findall skip [] = []"
| "findall (Suc skip) (c # cs) = findall skip cs"
| "findall 0 (c # cs) =
     (case dose_pattern (c # cs) of
        [] \<Rightarrow> findall 0 cs
      | (groups, rest) # others \<Rightarrow> groups # findall (length cs - length rest) cs)"

section \<open>Extraction\<close>

record dose_record =
  substance :: pystr
  dose :: pystr
  "method" :: pystr

text \<open>\<open>re.sub(r'\s+', ' ', s)\<close>; the flag says that the previous character was white space.\<close>

fun collapse :: "bool \<Rightarrow> pystr \<Rightarrow> pystr" where
  "collapse prev [] = []"
| "collapse prev (c # cs) =
     (if isspace c then (if prev then collapse True cs else 32 # collapse True cs)
      else c # collapse False cs)"

text \<open>\<open>re.sub(r'[^\w\s,-]', '', s)\<close>\<close>

definition keep_clean :: "pystr \<Rightarrow> pystr" where
  "keep_clean s = filter (\<lambda>c. isword c \<or> isspace c \<or> c = 44 \<or> c = 45) s"

definition clean_sub :: "pystr \<Rightarrow> pystr" where
  "clean_sub sub_name = keep_clean (collapse False (strip sub_name))"

definition make_record :: "pystr \<times> pystr \<times> pystr \<times> pystr \<Rightarrow> dose_record" where
  "make_record m =
     (case m of (dose_amount, unit, route, sub_name) \<Rightarrow>
        \<lparr>substance = clean_sub sub_name,
         dose = dose_amount @ ascii '' '' @ unit, method = lower route\<rparr>)"

definition extract_doses_from_text :: "pystr \<Rightarrow> dose_record list" where
  "extract_doses_from_text text = map make_record (findall 0 text)"

section \<open>Floating-point values\<close>

text \<open>
  \<open>float(s)\<close> of a numeral \<open>s\<close> is modelled by the exact decimal value of \<open>s\<close>, a rational
  number, and \<open>repr\<close> (which the f-strings of the source use) prints it back: the digits,
  at most 17 of them, with \<open>.0\<close> added to a whole number, and in exponent notation from
  \<open>1e+16\<close> on and below \<open>0.0001\<close>. This is Python's result for every numeral of at most 15
  significant digits: each of them survives the round trip through a double, so that
  comparison and printing of the doubles are those of the decimals.
\<close>

definition digits_value :: "pystr \<Rightarrow> nat" where
  "digits_value ds = foldl (\<lambda>a c. 10 * a + digit_value c) 0 ds"

definition float_of_numeral :: "pystr \<Rightarrow> rat" where
  "float_of_numeral num =
     (let ip = takeWhile isdigit num; fp = drop (Suc (length ip)) num
      in of_nat (digits_value ip) + of_nat (digits_value fp) / 10 ^ length fp)"

fun dec_digits :: "nat \<Rightarrow> pystr" where
  "dec_digits n = (if n < 10 then [48 + n] else dec_digits (n div 10) @ [48 + n mod 10])"

declare dec_digits.simps [simp del]

text \<open>The significant digits of \<open>x\<close>, for \<open>0 \<le> x < 10\<close>, without trailing zeros.\<close>

fun sig_digits :: "nat \<Rightarrow> rat \<Rightarrow> pystr" where
  "sig_digits fuel x =
     (if fuel = 0 \<or> x = 0 then []
      else (48 + nat \<lfloor>x\<rfloor>) # sig_digits (fuel - 1) ((x - of_int \<lfloor>x\<rfloor>) * 10))"

text \<open>The number of times \<open>x < 1\<close> is multiplied by 10 to reach 1; no double is below \<open>1e-324\<close>.\<close>

fun leading_zeros :: "nat \<Rightarrow> rat \<Rightarrow> nat" where
  "leading_zeros fuel x =
     (if fuel = 0 \<or> 1 \<le> x then 0 else Suc (leading_zeros (fuel - 1) (x * 10)))"

declare sig_digits.simps [simp del] leading_zeros.simps [simp del]

definition float_repr :: "rat \<Rightarrow> pystr" where
  "float_repr q =
     (if q = 0 then ascii ''0.0''
      else if 1 \<le> q then
        (let e = length (dec_digits (nat \<lfloor>q\<rfloor>)) - 1;
             ds = sig_digits 17 (q / 10 ^ e)
         in if 16 \<le> e then
              take 1 ds @ (if 1 < length ds then ascii ''.'' @ drop 1 ds else []) @ ascii ''e+''
                @ dec_digits e
            else
              take (Suc e) (ds @ replicate (Suc e) 48) @ ascii ''.''
                @ (if Suc e < length ds then drop (Suc e) ds else ascii ''0''))
      else
        (let z = leading_zeros 324 q;
             ds = sig_digits 17 (q * 10 ^ z)
         in if 4 < z then
              take 1 ds @ (if 1 < length ds then ascii ''.'' @ drop 1 ds else []) @ ascii ''e-''
                @ (if z < 10 then ascii ''0'' else []) @ dec_digits z
            else ascii ''0.'' @ replicate (z - 1) 48 @ ds))"

text \<open>
  \<open>int(count * pct)\<close> is computed in double precision: \<open>count\<close> is converted to a double,
  the product with the double \<open>pct\<close> is rounded to 53 significant bits, ties to even, and
  \<open>int\<close> truncates. The four constants are the doubles nearest to 0.1, 0.3, 0.7 and 0.9, as
  multiples of \<open>2 ^ -56\<close>; \<open>round_double n\<close> rounds the natural number \<open>n\<close>, and so
  every multiple \<open>n * 2 ^ -56\<close>, to 53 significant bits.
\<close>

definition round_double :: "nat \<Rightarrow> nat" where
  "round_double n =
     (let s = floorlog 2 n - 53; q = n div 2 ^ s; r = n mod 2 ^ s
      in (if 2 ^ s < 2 * r \<or> (2 * r = 2 ^ s \<and> odd q) then q + 1 else q) * 2 ^ s)"

definition float_0_10 :: nat where "float_0_10 = 7205759403792794"
definition float_0_30 :: nat where "float_0_30 = 21617278211378380"
definition float_0_70 :: nat where "float_0_70 = 50440315826549552"
definition float_0_90 :: nat where "float_0_90 = 64851834634135144"

definition int_mul :: "nat \<Rightarrow> nat \<Rightarrow> nat" where
  "int_mul count pct = round_double (round_double count * pct) div 2 ^ 56"

section \<open>Analysis\<close>

record dose_stats =
  total_reports :: nat
  distribution :: "(pystr \<times> nat) list"

record dose_ranges =
  Threshold :: pystr
  Light :: pystr
  Common :: pystr
  Strong :: pystr
  Heavy :: pystr
  Dangerous :: pystr
  Fatal :: pystr
  stats :: dose_stats

text \<open>The body of the first loop of \<open>analyze_doses\<close>: \<open>None\<close> where \<open>re.match\<close> fails.\<close>

definition parse_dose :: "pystr \<Rightarrow> (rat \<times> pystr) option" where
  "parse_dose d =
     (let d_str = filter (\<lambda>c. c \<noteq> 44) (lower (strip d))
      in case parse_pattern d_str of
           [] \<Rightarrow> None
         | ((num, unit), rest) # others \<Rightarrow> Some (float_of_numeral num, unit))"

definition parse_doses :: "pystr list \<Rightarrow> (rat \<times> pystr) list" where
  "parse_doses doses = List.map_filter parse_dose doses"

text \<open>
  A Python \<open>dict\<close> keeps its keys in insertion order: it is an association list with
  distinct keys, and \<open>AList.update\<close> is the assignment \<open>d[k] = v\<close>. \<open>incr\<close> is
  \<open>d[k] += 1\<close> on a \<open>defaultdict(int)\<close>.
\<close>

definition incr :: "('k \<times> nat) list \<Rightarrow> 'k \<Rightarrow> ('k \<times> nat) list" where
  "incr d k = AList.update k (case map_of d k of None \<Rightarrow> 1 | Some n \<Rightarrow> n + 1) d"

definition unit_counts :: "(rat \<times> pystr) list \<Rightarrow> (pystr \<times> nat) list" where
  "unit_counts parsed = foldl incr [] (map snd parsed)"

text \<open>
  \<open>max(d, key=d.get)\<close>: the first key, in insertion order, whose value is the largest.
  On an empty dictionary \<open>max\<close> raises; \<open>analyze_doses\<close> has returned before.
\<close>

fun max_key :: "('k \<times> nat) list \<Rightarrow> 'k option" where
  "max_key [] = None"
| "max_key ((k, v) # rest) =
     Some (fst (foldl (\<lambda>(bk, bv) (k', v'). if bv < v' then (k', v') else (bk, bv)) (k, v) rest))"

definition valid_doses :: "(rat \<times> pystr) list \<Rightarrow> pystr \<Rightarrow> rat list" where
  "valid_doses parsed most_common_unit =
     sort (map fst (filter (\<lambda>p. snd p = most_common_unit) parsed))"

text \<open>\<open>sorted(distribution.items())\<close>\<close>

definition histogram :: "rat list \<Rightarrow> (rat \<times> nat) list" where
  "histogram vs = sort (foldl incr [] vs)"

definition make_stats :: "rat list \<Rightarrow> pystr \<Rightarrow> dose_stats" where
  "make_stats vs unit =
     \<lparr>total_reports = length vs,
      distribution = foldl (\<lambda>d (k, v). AList.update (float_repr k @ ascii '' '' @ unit) v d) []
                       (histogram vs)\<rparr>"

definition fmt :: "pystr \<Rightarrow> rat \<Rightarrow> rat \<Rightarrow> pystr" where
  "fmt unit start end' =
     (if start = end' then float_repr start @ ascii '' '' @ unit
      else float_repr start @ ascii ''-'' @ float_repr end' @ ascii '' '' @ unit)"

definition get_p :: "rat list \<Rightarrow> nat \<Rightarrow> rat" where
  "get_p vs pct = vs ! min (int_mul (length vs) pct) (length vs - 1)"

definition analyze_doses :: "pystr list \<Rightarrow> dose_ranges option" where
  "analyze_doses doses =
     (let parsed = parse_doses doses in
      if parsed = [] then None
      else case max_key (unit_counts parsed) of
        None \<Rightarrow> None
      | Some unit \<Rightarrow>
         (let vs = valid_doses parsed unit;
              count = length vs;
              ranges = \<lparr>Threshold = [], Light = [], Common = [], Strong = [], Heavy = [],
                        Dangerous = [], Fatal = ascii ''Unknown'', stats = make_stats vs unit\<rparr>
          in if count = 0 then None
             else if count = 1 then
               Some (ranges\<lparr>Common := float_repr (vs ! 0) @ ascii '' '' @ unit\<rparr>)
             else if count < 5 then Some (ranges\<lparr>Common := fmt unit (vs ! 0) (last vs)\<rparr>)
             else
               (let p10 = get_p vs float_0_10;
                    p30 = get_p vs float_0_30;
                    p70 = get_p vs float_0_70;
                    p90 = get_p vs float_0_90;
                    r1 = (if vs ! 0 \<le> p10 then ranges\<lparr>Threshold := fmt unit (vs ! 0) p10\<rparr>
                          else ranges);
                    r2 = (if p10 < p30 then r1\<lparr>Light := fmt unit p10 p30\<rparr> else r1);
                    r3 = (if p30 \<le> p70 then r2\<lparr>Common := fmt unit p30 p70\<rparr> else r2);
                    r4 = (if p70 < p90 then r3\<lparr>Strong := fmt unit p70 p90\<rparr> else r3)
                in Some (r4\<lparr>Heavy := float_repr p90 @ ascii ''+ '' @ unit\<rparr>))))"

section \<open>The run\<close>

text \<open>
  The values of \<open>json.load\<close>. A \<open>JObj\<close> holds the items of the loaded \<open>dict\<close> in
  insertion order, with distinct keys.
\<close>

datatype json =
  JNull | JBool bool | JNum rat | JStr pystr | JArr "json list" | JObj "(pystr \<times> json) list"

datatype py_error = JSONDecodeError | UnicodeDecodeError | OSError | TypeError | KeyError

text \<open>
  \<open>load_progress\<close>. The progress file is absent (\<open>None\<close>) or present; on a present file
  \<open>open\<close> and \<open>json.load\<close> return the decoded value or raise. Only
  \<open>json.JSONDecodeError\<close> is caught.
\<close>

definition load_progress :: "(py_error + json) option \<Rightarrow> py_error + json" where
  "load_progress progress_file =
     (case progress_file of
        None \<Rightarrow> Inr (JObj [])
      | Some (Inr data) \<Rightarrow> Inr data
      | Some (Inl e) \<Rightarrow> if e = JSONDecodeError then Inr (JObj []) else Inl e)"

text \<open>
  The filter of \<open>main\<close>: \<open>[u for u in all_report_urls if progress.get(u) != "done"]\<close>, on
  the items of the ledger and the URLs in their order of iteration.
\<close>

definition urls_to_scrape :: "pystr list \<Rightarrow> (pystr \<times> json) list \<Rightarrow> pystr list" where
  "urls_to_scrape all_report_urls progress =
     filter (\<lambda>u. map_of progress u \<noteq> Some (JStr (ascii ''done''))) all_report_urls"

text \<open>
  The file that \<open>save_temp_report\<close> writes for a report, as \<open>json.load\<close> reads it back.
\<close>

definition record_json :: "dose_record \<Rightarrow> json" where
  "record_json r =
     JObj [(ascii ''substance'', JStr (substance r)), (ascii ''dose'', JStr (dose r)),
           (ascii ''method'', JStr (method r))]"

definition temp_report :: "pystr \<Rightarrow> dose_record list \<Rightarrow> pystr \<Rightarrow> json" where
  "temp_report url doses timestamp =
     JObj [(ascii ''url'', JStr url), (ascii ''doses'', JArr (map record_json doses)),
           (ascii ''timestamp'', JStr timestamp)]"

text \<open>
  The merge. \<open>all_doses\<close> is a \<open>defaultdict\<close> of \<open>defaultdict\<close>s of lists; its keys are
  whatever the files hold under \<open>substance\<close> and \<open>method\<close>, and are compared as JSON
  values. A list or a dictionary is not hashable and cannot be a key. (As keys, Python also
  takes \<open>True\<close> for \<open>1\<close> and \<open>False\<close> for \<open>0\<close>; the files that \<open>save_temp_report\<close> writes
  hold strings there.)
\<close>

type_synonym corpus = "(json \<times> (json \<times> json list) list) list"

definition hashable :: "json \<Rightarrow> bool" where
  "hashable j = (case j of JArr xs \<Rightarrow> False | JObj kvs \<Rightarrow> False | _ \<Rightarrow> True)"

definition is_substring :: "pystr \<Rightarrow> pystr \<Rightarrow> bool" where
  "is_substring k t = list_ex (\<lambda>i. take (length k) (drop i t) = k) [0..<Suc (length t)]"

text \<open>\<open>k in item\<close>: a key of a dictionary, a substring of a string, an element of a list.\<close>

definition contains :: "pystr \<Rightarrow> json \<Rightarrow> py_error + bool" where
  "contains k item =
     (case item of
        JObj kvs \<Rightarrow> Inr (k \<in> fst ` set kvs)
      | JStr t \<Rightarrow> Inr (is_substring k t)
      | JArr xs \<Rightarrow> Inr (JStr k \<in> set xs)
      | _ \<Rightarrow> Inl TypeError)"

definition has_fields :: "json \<Rightarrow> py_error + bool" where
  "has_fields item =
     (case contains (ascii ''substance'') item of
        Inl e \<Rightarrow> Inl e
      | Inr False \<Rightarrow> Inr False
      | Inr True \<Rightarrow>
         (case contains (ascii ''method'') item of
            Inl e \<Rightarrow> Inl e
          | Inr False \<Rightarrow> Inr False
          | Inr True \<Rightarrow> contains (ascii ''dose'') item))"

definition doses_of :: "corpus \<Rightarrow> json \<Rightarrow> json \<Rightarrow> json list" where
  "doses_of all_doses s m =
     (case map_of all_doses s of
        None \<Rightarrow> []
      | Some methods \<Rightarrow> (case map_of methods m of None \<Rightarrow> [] | Some ds \<Rightarrow> ds))"

text \<open>\<open>all_doses[s]\<close> creates the entry of \<open>s\<close> when there is none.\<close>

definition touch :: "json \<Rightarrow> corpus \<Rightarrow> corpus" where
  "touch s all_doses =
     (case map_of all_doses s of None \<Rightarrow> all_doses @ [(s, [])] | Some methods \<Rightarrow> all_doses)"

definition append_dose :: "json \<Rightarrow> json \<Rightarrow> json \<Rightarrow> corpus \<Rightarrow> corpus" where
  "append_dose s m d all_doses =
     (let methods = (case map_of all_doses s of None \<Rightarrow> [] | Some ms \<Rightarrow> ms)
      in AList.update s (AList.update m (doses_of all_doses s m @ [d]) methods) all_doses)"

text \<open>
  The body of the loop over \<open>doses_list\<close>. An exception ends the work on the file; what
  the file has added before stays.
\<close>

definition merge_item :: "corpus \<Rightarrow> json \<Rightarrow> corpus \<times> py_error option" where
  "merge_item all_doses item =
     (case has_fields item of
        Inl e \<Rightarrow> (all_doses, Some e)
      | Inr False \<Rightarrow> (all_doses, None)
      | Inr True \<Rightarrow>
         (case item of
            JObj kvs \<Rightarrow>
              (case (map_of kvs (ascii ''substance''), map_of kvs (ascii ''method''),
                     map_of kvs (ascii ''dose'')) of
                 (Some s, Some m, Some d) \<Rightarrow>
                   if \<not> hashable s then (all_doses, Some TypeError)
                   else if \<not> hashable m then (touch s all_doses, Some TypeError)
                   else (append_dose s m d all_doses, None)
               | _ \<Rightarrow> (all_doses, Some KeyError))
          | _ \<Rightarrow> (all_doses, Some TypeError)))"

fun merge_items :: "corpus \<Rightarrow> json list \<Rightarrow> corpus" where
  "merge_items all_doses [] = all_doses"
| "merge_items all_doses (item # items) =
     (case merge_item all_doses item of
        (all_doses', None) \<Rightarrow> merge_items all_doses' items
      | (all_doses', Some e) \<Rightarrow> all_doses')"

text \<open>
  One file of the report store: what \<open>open\<close> and \<open>json.load\<close> give for it. Every exception
  is swallowed.
\<close>

definition merge_file :: "corpus \<Rightarrow> py_error + json \<Rightarrow> corpus" where
  "merge_file all_doses tf =
     (case tf of
        Inl e \<Rightarrow> all_doses
      | Inr tdata \<Rightarrow>
         (case tdata of
            JObj kvs \<Rightarrow>
              (case map_of kvs (ascii ''doses'') of
                 Some (JArr doses_list) \<Rightarrow> merge_items all_doses doses_list
               | _ \<Rightarrow> all_doses)
          | _ \<Rightarrow> all_doses))"

definition merge_files :: "(py_error + json) list \<Rightarrow> corpus" where
  "merge_files temp_files = foldl merge_file [] temp_files"

text \<open>The analysis of the groups of one substance, and of all substances.\<close>

definition formatted_dose :: "('m \<times> pystr list) list \<Rightarrow> ('m \<times> dose_ranges) list" where
  "formatted_dose methods =
     foldl (\<lambda>fd (m, doses). case analyze_doses doses of
                               None \<Rightarrow> fd
                             | Some rng \<Rightarrow> AList.update m rng fd) [] methods"

definition formatted_data ::
  "('s \<times> ('m \<times> pystr list) list) list \<Rightarrow> ('s \<times> ('m \<times> dose_ranges) list) list" where
  "formatted_data all_doses =
     foldl (\<lambda>fd (sub, methods). if formatted_dose methods \<noteq> []
                                 then AList.update sub (formatted_dose methods) fd else fd)
       [] all_doses"






section \<open>Auxiliary notions and examples\<close>

text \<open>The doses of the end-to-end scenario of the specification.\<close>

definition scenario :: "pystr list" where
  "scenario = map ascii [''80 mg'', ''100 mg'', ''120 mg'', ''150 mg'', ''200 mg'', ''300 mg'']"

text \<open>The count that a dictionary of counts holds for a key; 0 where it has none.\<close>

definition tally :: "('k \<times> nat) list \<Rightarrow> 'k \<Rightarrow> nat" where
  "tally d k = (case map_of d k of None \<Rightarrow> 0 | Some n \<Rightarrow> n)"

text \<open>Rounding to a multiple of \<open>2 ^ s\<close>, ties to even.\<close>

definition rnd :: "nat \<Rightarrow> nat \<Rightarrow> nat" where
  "rnd s n = (if 2 ^ s < 2 * (n mod 2 ^ s) \<or> (2 * (n mod 2 ^ s) = 2 ^ s \<and> odd (n div 2 ^ s))
              then n div 2 ^ s + 1 else n div 2 ^ s) * 2 ^ s"

text \<open>A sample in two units: four doses in mg, two in g.\<close>

definition mixed_units :: "pystr list" where
  "mixed_units = map ascii [''10 mg'', ''1 g'', ''20 mg'', ''2 g'', ''30 mg'', ''20 mg'']"

text \<open>A ledger, the report URLs of a run, and a report store with a corrupt file and the result
  of the first report.\<close>

definition ledger :: "(pystr \<times> json) list" where
  "ledger = [(ascii ''exp.php?ID=1'', JStr (ascii ''done'')),
             (ascii ''exp.php?ID=2'', JStr (ascii ''failed'')),
             (ascii ''exp.php?ID=3'', JStr (ascii ''failed_blocked''))]"

definition frontier :: "pystr list" where
  "frontier = map ascii [''exp.php?ID=1'', ''exp.php?ID=2'', ''exp.php?ID=3'', ''exp.php?ID=4'']"

definition stored :: "(py_error + json) list" where
  "stored =
     [Inl JSONDecodeError,
      Inr (temp_report (ascii ''exp.php?ID=1'')
             [\<lparr>substance = ascii ''LSD'', dose = ascii ''100 ug'', method = ascii ''oral''\<rparr>]
             (ascii ''2025-01-01T00:00:00''))]"


text \<open>A numeral: digits, and then possibly a point and digits.\<close>

definition is_numeral :: "pystr \<Rightarrow> bool" where
  "is_numeral a \<longleftrightarrow>
     (let ip = takeWhile isdigit a; rest = dropWhile isdigit a
      in ip \<noteq> [] \<and> (rest = [] \<or> (hd rest = 46 \<and> tl rest \<noteq> [] \<and> list_all isdigit (tl rest))))"

text \<open>The letters of ASCII.\<close>

definition ascii_letter :: "codepoint \<Rightarrow> bool" where
  "ascii_letter p \<longleftrightarrow> (65 \<le> p \<and> p \<le> 90) \<or> (97 \<le> p \<and> p \<le> 122)"

text \<open>No two white-space characters in a row.\<close>

fun single_spaced :: "pystr \<Rightarrow> bool" where
  "single_spaced (c # d # cs) \<longleftrightarrow> \<not> (isspace c \<and> isspace d) \<and> single_spaced (d # cs)"
| "single_spaced cs \<longleftrightarrow> True"

text \<open>A report text with two doses.\<close>

definition report_text :: pystr where
  "report_text = ascii ''12.5MG  Oral  foo   bar, baz-1 (x) 3 g IV q''"

text \<open>
  The forms in which a letter of a lower-cased route word comes out of the extractor. The
  \<open>i\<close> of the pattern also matches the dotless i, which \<open>lower\<close> keeps, and the capital I
  with dot, which \<open>lower\<close> turns into \<open>i\<close> and the combining dot above; the \<open>s\<close> of the
  pattern also matches the long s, which \<open>lower\<close> keeps.
\<close>

definition letter_forms :: "codepoint \<Rightarrow> pystr list" where
  "letter_forms p =
     (if p = 105 then [[105], [305], [105, 775]] else if p = 115 then [[115], [383]] else [[p]])"

fun word_forms :: "pystr \<Rightarrow> pystr list" where
  "word_forms [] = [[]]"
| "word_forms (p # w) = concat (map (\<lambda>v. map (\<lambda>t. v @ t) (word_forms w)) (letter_forms p))"

text \<open>
  A dose whose route \<open>IV\<close> is written with the capital I with dot, and a dose whose amount
  is written in Arabic-Indic digits.
\<close>

definition dotted_route_text :: pystr where
  "dotted_route_text = ascii ''5 mg '' @ [304, 86] @ ascii '' heroin''"

definition arabic_digits_text :: pystr where
  "arabic_digits_text = [1634, 46, 1637] @ ascii '' mg oral LSD''"

text \<open>
  The text \<open>5 \<mu>g oral LSD\<close>, its unit written with the Greek small letter mu (U+03BC).
\<close>

definition greek_mu_text :: pystr where
  "greek_mu_text = [53, 32, 956, 103] @ ascii '' oral LSD''"

section \<open>Evaluation\<close>

lemma floor_rat_numeral_div [simp]:
  "\<lfloor>numeral a / numeral b :: rat\<rfloor> = numeral a div numeral b"
  by (metis floor_divide_of_int_eq of_int_numeral)

lemmas text_eval = ascii_def isspace_def digit_zeros_def isdigit_def isword_def lower_def
  lower_cp_def strip_def normalize_def

lemmas regex_eval = greedy_star_def greedy_plus_def lazy_plus_def literal_def number_def
  unit_letter_def parse_pattern_def re_lower_def case_fixes_def ci_char_def literal_ci_def
  unit_words_def units_def route_words_def routes_def sub_class_def end_anchor_def
  dose_pattern_def

lemmas float_eval = digit_value_def digits_value_def float_of_numeral_def dec_digits.simps
  sig_digits.simps leading_zeros.simps float_repr_def

lemmas analysis_eval = parse_doses_def List.map_filter_simps incr_def unit_counts_def
  valid_doses_def histogram_def make_stats_def fmt_def int_mul_def round_double_def
  float_0_10_def float_0_30_def float_0_70_def float_0_90_def compute_floorlog get_p_def
  less_eq_prod_def less_prod_def

lemmas extract_eval = keep_clean_def clean_sub_def make_record_def extract_doses_from_text_def

section \<open>The end-to-end scenario\<close>

lemma scenario_bands:
  "analyze_doses scenario =
     Some \<lparr>Threshold = ascii ''80.0 mg'', Light = ascii ''80.0-100.0 mg'',
           Common = ascii ''100.0-200.0 mg'', Strong = ascii ''200.0-300.0 mg'',
           Heavy = ascii ''300.0+ mg'', Dangerous = [], Fatal = ascii ''Unknown'',
           stats = \<lparr>total_reports = 6,
             distribution = [(ascii ''80.0 mg'', 1), (ascii ''100.0 mg'', 1),
               (ascii ''120.0 mg'', 1), (ascii ''150.0 mg'', 1), (ascii ''200.0 mg'', 1),
               (ascii ''300.0 mg'', 1)]\<rparr>\<rparr>"
  by (simp add: scenario_def analyze_doses_def parse_dose_def text_eval regex_eval float_eval
      analysis_eval)

text \<open>
  C1, as the code has it. The values are doubles, and an f-string prints the double 80.0 as
  \<open>80.0\<close>; the Light band runs from p10 to p30. For the six doses of the scenario
  \<open>analyze_doses\<close> returns Threshold \<open>80.0 mg\<close>, Light \<open>80.0-100.0 mg\<close>, Common
  \<open>100.0-200.0 mg\<close>, Strong \<open>200.0-300.0 mg\<close> and Heavy \<open>300.0+ mg\<close>.
\<close>

theorem analyze_doses_scenario:
  "map_option (\<lambda>r. [Threshold r, Light r, Common r, Strong r, Heavy r]) (analyze_doses scenario) =
     Some [ascii ''80.0 mg'', ascii ''80.0-100.0 mg'', ascii ''100.0-200.0 mg'',
           ascii ''200.0-300.0 mg'', ascii ''300.0+ mg'']"
  by (simp add: scenario_bands)

text \<open>
  C1, as the specification states it, fails: none of the five bands is the string that the
  specification gives.
\<close>

theorem analyze_doses_scenario_counterexample:
  "map_option Threshold (analyze_doses scenario) \<noteq> Some (ascii ''80 mg'') \<and>
   map_option Light (analyze_doses scenario) \<noteq> Some (ascii ''100 mg'') \<and>
   map_option Common (analyze_doses scenario) \<noteq> Some (ascii ''100-200 mg'') \<and>
   map_option Strong (analyze_doses scenario) \<noteq> Some (ascii ''200-300 mg'') \<and>
   map_option Heavy (analyze_doses scenario) \<noteq> Some (ascii ''300+ mg'')"
  by (simp add: scenario_bands ascii_def)

section \<open>The dictionaries of the analysis\<close>

lemma incr_keys: "fst ` set (incr d k) = insert k (fst ` set d)"
  by (simp add: incr_def update_conv' flip: dom_map_of_conv_image_fst)

lemma foldl_incr_keys: "fst ` set (foldl incr d ks) = fst ` set d \<union> set ks"
  by (induction ks arbitrary: d) (auto simp: incr_keys)

lemma incr_distinct: "distinct (map fst d) \<Longrightarrow> distinct (map fst (incr d k))"
  by (simp add: incr_def distinct_update)

lemma foldl_incr_distinct: "distinct (map fst d) \<Longrightarrow> distinct (map fst (foldl incr d ks))"
  by (induction ks arbitrary: d) (auto simp: incr_distinct)

lemma map_of_incr:
  "map_of (incr d k) k' =
     (if k' = k then Some (case map_of d k of None \<Rightarrow> 1 | Some n \<Rightarrow> n + 1) else map_of d k')"
  by (simp add: incr_def update_conv')

lemma tally_Nil: "tally [] k = 0"
  by (simp add: tally_def)

lemma tally_incr: "tally (incr d k) k' = (if k' = k then Suc (tally d k) else tally d k')"
  by (simp add: tally_def map_of_incr split: option.splits)

lemma tally_foldl_incr: "tally (foldl incr d ks) k = tally d k + count_list ks k"
  by (induction ks arbitrary: d) (auto simp: tally_incr)

lemma max_key_fold_inv:
  "foldl (\<lambda>(bk, bv) (k', v'). if bv < v' then (k', v') else (bk, bv)) (k, v) rest = (bk, bv) \<Longrightarrow>
   (bk, bv) \<in> set ((k, v) # rest) \<and> v \<le> (bv::nat) \<and> (\<forall>(k', v') \<in> set rest. v' \<le> bv)"
proof (induction rest arbitrary: k v)
  case Nil
  then show ?case by simp
next
  case (Cons x rest)
  obtain k' v' where x: "x = (k', v')" by (cases x)
  show ?case
  proof (cases "v < v'")
    case True
    with Cons.prems x have "foldl (\<lambda>(bk, bv) (k', v'). if bv < v' then (k', v') else (bk, bv)) (k', v') rest = (bk, bv)"
      by simp
    from Cons.IH[OF this] True x show ?thesis by auto
  next
    case False
    with Cons.prems x have "foldl (\<lambda>(bk, bv) (k', v'). if bv < v' then (k', v') else (bk, bv)) (k, v) rest = (bk, bv)"
      by simp
    from Cons.IH[OF this] False x show ?thesis by auto
  qed
qed

lemma max_key_Some:
  assumes "d \<noteq> []"
  shows "\<exists>k v. max_key d = Some k \<and> (k, v) \<in> set d \<and> (\<forall>(k', v') \<in> set d. v' \<le> v)"
proof -
  from assms obtain k v rest where d: "d = (k, v) # rest" by (cases d) auto
  obtain bk bv where f: "foldl (\<lambda>(bk, bv) (k', v'). if bv < v' then (k', v') else (bk, bv)) (k, v) rest = (bk, bv)"
    by (cases "foldl (\<lambda>(bk, bv) (k', v'). if bv < v' then (k', v') else (bk, bv)) (k, v) rest")
  from max_key_fold_inv[OF f] have "(bk, bv) \<in> set d \<and> (\<forall>(k', v') \<in> set d. v' \<le> bv)"
    by (auto simp: d)
  moreover have "max_key d = Some bk" by (simp add: d f)
  ultimately show ?thesis by blast
qed

lemma unit_counts_keys: "fst ` set (unit_counts parsed) = snd ` set parsed"
  by (simp add: unit_counts_def foldl_incr_keys)

lemma unit_counts_distinct: "distinct (map fst (unit_counts parsed))"
  by (simp add: unit_counts_def foldl_incr_distinct)

lemma count_list_map_snd:
  "count_list (map snd parsed) u = length (filter (\<lambda>p. snd p = u) parsed)"
  by (induction parsed) auto

lemma unit_counts_tally:
  "tally (unit_counts parsed) u = length (filter (\<lambda>p. snd p = u) parsed)"
  by (simp add: unit_counts_def tally_foldl_incr tally_Nil count_list_map_snd)

lemma tally_member: "distinct (map fst d) \<Longrightarrow> (k, v) \<in> set d \<Longrightarrow> tally d k = v"
  by (simp add: tally_def)

lemma tally_le_max:
  assumes "distinct (map fst d)" "\<forall>(k', v') \<in> set d. v' \<le> v"
  shows "tally d k \<le> v"
proof (cases "map_of d k")
  case None
  then show ?thesis by (simp add: tally_def)
next
  case (Some n)
  then have "(k, n) \<in> set d" by (rule map_of_SomeD)
  with assms(2) have "n \<le> v" by auto
  with Some show ?thesis by (simp add: tally_def)
qed

lemma most_common_unit:
  assumes "parsed \<noteq> []"
  shows "\<exists>unit. max_key (unit_counts parsed) = Some unit \<and> unit \<in> snd ` set parsed \<and>
           (\<forall>u. length (filter (\<lambda>p. snd p = u) parsed) \<le> length (filter (\<lambda>p. snd p = unit) parsed))"
proof -
  have ne: "unit_counts parsed \<noteq> []"
    using assms unit_counts_keys[of parsed] by auto
  from max_key_Some[OF ne] obtain k v where
    k: "max_key (unit_counts parsed) = Some k" "(k, v) \<in> set (unit_counts parsed)"
       "\<forall>(k', v') \<in> set (unit_counts parsed). v' \<le> v" by blast
  have kv: "tally (unit_counts parsed) k = v"
    using tally_member[OF unit_counts_distinct k(2)] .
  have "k \<in> snd ` set parsed"
    using k(2) unit_counts_keys[of parsed] by force
  moreover have "length (filter (\<lambda>p. snd p = u) parsed) \<le> length (filter (\<lambda>p. snd p = k) parsed)" for u
    using tally_le_max[OF unit_counts_distinct k(3), of u] kv by (simp add: unit_counts_tally)
  ultimately show ?thesis using k(1) by blast
qed

lemma valid_doses_length:
  "length (valid_doses parsed unit) = length (filter (\<lambda>p. snd p = unit) parsed)"
  by (simp add: valid_doses_def)

lemma valid_doses_nonempty: "unit \<in> snd ` set parsed \<Longrightarrow> 0 < length (valid_doses parsed unit)"
  unfolding valid_doses_length by (auto simp: filter_empty_conv)

section \<open>Rounding and percentiles\<close>

lemma round_double_rnd: "round_double n = rnd (floorlog 2 n - 53) n"
  by (simp add: round_double_def rnd_def Let_def)

lemma rnd_lower: "(n div 2 ^ s) * 2 ^ s \<le> rnd s n"
  by (simp add: rnd_def)

lemma rnd_upper: "rnd s n \<le> (n div 2 ^ s + 1) * 2 ^ s"
  by (simp add: rnd_def)

lemma rnd_mono: assumes "a \<le> b" shows "rnd s a \<le> rnd s b"
proof (cases "a div 2 ^ s = b div 2 ^ s")
  case True
  with assms have "a mod 2 ^ s \<le> b mod 2 ^ s"
    by (metis div_mult_mod_eq add_le_cancel_left)
  with True show ?thesis by (auto simp: rnd_def)
next
  case False
  with assms have "a div 2 ^ s < b div 2 ^ s"
    by (simp add: div_le_mono le_neq_implies_less)
  then have "(a div 2 ^ s + 1) * 2 ^ s \<le> (b div 2 ^ s) * 2 ^ s"
    by (simp add: Suc_leI mult_le_mono1 del: mult_Suc)
  with rnd_upper[of s a] rnd_lower[of b s] show ?thesis by linarith
qed

lemma rnd_le_pow:
  assumes "n < 2 ^ l" "s \<le> l"
  shows "rnd s n \<le> 2 ^ l"
proof -
  have "(2::nat) ^ l = 2 ^ (l - s) * 2 ^ s"
    using assms(2) by (simp flip: power_add)
  with assms(1) have "n div 2 ^ s < 2 ^ (l - s)"
    by (simp add: less_mult_imp_div_less)
  then have "(n div 2 ^ s + 1) * 2 ^ s \<le> 2 ^ (l - s) * 2 ^ s"
    by (simp add: Suc_leI mult_le_mono1 del: mult_Suc)
  with rnd_upper[of s n] \<open>(2::nat) ^ l = 2 ^ (l - s) * 2 ^ s\<close> show ?thesis by linarith
qed

lemma rnd_ge_pow:
  assumes "2 ^ l \<le> n" "s \<le> l"
  shows "2 ^ l \<le> rnd s n"
proof -
  have e: "(2::nat) ^ l = 2 ^ (l - s) * 2 ^ s"
    using assms(2) by (simp flip: power_add)
  with assms(1) have "2 ^ (l - s) \<le> n div 2 ^ s"
    by (metis div_le_mono div_mult_self_is_m zero_less_numeral zero_less_power)
  then have "2 ^ (l - s) * 2 ^ s \<le> (n div 2 ^ s) * 2 ^ s"
    by (simp add: mult_le_mono1)
  with rnd_lower[of n s] e show ?thesis by linarith
qed

lemma round_double_mono: assumes "a \<le> b" shows "round_double a \<le> round_double b"
proof (cases "a = 0")
  case True
  then show ?thesis by (simp add: round_double_rnd rnd_def floorlog_def)
next
  case False
  then have a: "0 < a" and b: "0 < b" using assms by auto
  let ?la = "floorlog 2 a" and ?lb = "floorlog 2 b"
  have le: "?la \<le> ?lb" using assms by (rule floorlog_mono)
  from floorlog_bounds[OF a, of 2] have ba: "a < 2 ^ ?la" by simp
  from floorlog_bounds[OF b, of 2] have bb: "2 ^ (?lb - 1) \<le> b" by simp
  show ?thesis
  proof (cases "?la - 53 = ?lb - 53")
    case True
    then show ?thesis using rnd_mono[OF assms] by (simp add: round_double_rnd)
  next
    case False
    with le have lt: "?la < ?lb" "53 < ?lb" by linarith+
    have "rnd (?la - 53) a \<le> 2 ^ ?la" using ba by (rule rnd_le_pow) simp
    also have "\<dots> \<le> 2 ^ (?lb - 1)" using lt by (simp add: power_increasing)
    also have "\<dots> \<le> rnd (?lb - 53) b" using bb by (rule rnd_ge_pow) (use lt in linarith)
    finally show ?thesis by (simp add: round_double_rnd)
  qed
qed

lemma int_mul_mono: "c \<le> c' \<Longrightarrow> int_mul n c \<le> int_mul n c'"
  unfolding int_mul_def by (intro div_le_mono round_double_mono mult_le_mono2)

lemma percent_order: "float_0_10 \<le> float_0_30" "float_0_30 \<le> float_0_70" "float_0_70 \<le> float_0_90"
  by (simp_all add: float_0_10_def float_0_30_def float_0_70_def float_0_90_def)

lemma sorted_valid_doses: "sorted (valid_doses parsed unit)"
  by (simp add: valid_doses_def)

lemma get_p_mono:
  assumes "sorted vs" "vs \<noteq> []" "c \<le> c'"
  shows "get_p vs c \<le> get_p vs c'"
proof -
  have "min (int_mul (length vs) c) (length vs - 1) \<le> min (int_mul (length vs) c') (length vs - 1)"
    using int_mul_mono[OF assms(3), of "length vs"] by (simp add: min_le_iff_disj)
  moreover have "min (int_mul (length vs) c') (length vs - 1) < length vs"
    using assms(2) by (simp add: min_less_iff_disj)
  ultimately show ?thesis
    unfolding get_p_def using assms(1) by (simp add: sorted_nth_mono)
qed

lemma get_p_bounds:
  assumes "sorted vs" "vs \<noteq> []"
  shows "Min (set vs) \<le> get_p vs c" "get_p vs c \<le> Max (set vs)" "vs ! 0 = Min (set vs)" "last vs = Max (set vs)"
proof -
  have "min (int_mul (length vs) c) (length vs - 1) < length vs"
    using assms(2) by (simp add: min_less_iff_disj)
  then have "get_p vs c \<in> set vs" unfolding get_p_def by (rule nth_mem)
  then show "Min (set vs) \<le> get_p vs c" "get_p vs c \<le> Max (set vs)" by simp_all
  from assms obtain x xs where vs: "vs = x # xs" by (cases vs) auto
  with assms(1) show "vs ! 0 = Min (set vs)"
    by (auto intro!: Min_eqI[symmetric])
  have "last vs \<in> set vs" using assms(2) by simp
  moreover have "y \<le> last vs" if "y \<in> set vs" for y
  proof -
    from that obtain i where i: "i < length vs" "vs ! i = y" by (auto simp: in_set_conv_nth)
    then have "vs ! i \<le> vs ! (length vs - 1)"
      using assms(1) by (intro sorted_nth_mono) auto
    with i assms(2) show ?thesis by (simp add: last_conv_nth)
  qed
  ultimately show "last vs = Max (set vs)"
    by (auto intro!: Max_eqI[symmetric])
qed

lemma max_key_Some_nonempty: "max_key d = Some k \<Longrightarrow> d \<noteq> []"
  by auto

lemma unit_counts_Nil: "unit_counts [] = []"
  by (simp add: unit_counts_def)

lemma analyze_doses_cases:
  assumes "max_key (unit_counts (parse_doses doses)) = Some unit"
      and "vs = valid_doses (parse_doses doses) unit"
  shows "analyze_doses doses =
     (let ranges = \<lparr>Threshold = [], Light = [], Common = [], Strong = [], Heavy = [],
                     Dangerous = [], Fatal = ascii ''Unknown'', stats = make_stats vs unit\<rparr>
      in if length vs = 0 then None
         else if length vs = 1 then
           Some (ranges\<lparr>Common := float_repr (vs ! 0) @ ascii '' '' @ unit\<rparr>)
         else if length vs < 5 then Some (ranges\<lparr>Common := fmt unit (vs ! 0) (last vs)\<rparr>)
         else
           (let p10 = get_p vs float_0_10;
                p30 = get_p vs float_0_30;
                p70 = get_p vs float_0_70;
                p90 = get_p vs float_0_90;
                r1 = (if vs ! 0 \<le> p10 then ranges\<lparr>Threshold := fmt unit (vs ! 0) p10\<rparr>
                      else ranges);
                r2 = (if p10 < p30 then r1\<lparr>Light := fmt unit p10 p30\<rparr> else r1);
                r3 = (if p30 \<le> p70 then r2\<lparr>Common := fmt unit p30 p70\<rparr> else r2);
                r4 = (if p70 < p90 then r3\<lparr>Strong := fmt unit p70 p90\<rparr> else r3)
            in Some (r4\<lparr>Heavy := float_repr p90 @ ascii ''+ '' @ unit\<rparr>)))"
proof -
  have "parse_doses doses \<noteq> []"
    using assms(1) by (auto simp: unit_counts_Nil)
  then show ?thesis
    unfolding analyze_doses_def by (simp add: assms Let_def)
qed

lemma scenario_parsed:
  "parse_doses scenario =
     [(80, ascii ''mg''), (100, ascii ''mg''), (120, ascii ''mg''), (150, ascii ''mg''),
      (200, ascii ''mg''), (300, ascii ''mg'')]"
  by (simp add: scenario_def parse_dose_def text_eval regex_eval float_eval analysis_eval)

lemma scenario_unit: "max_key (unit_counts (parse_doses scenario)) = Some (ascii ''mg'')"
  by (simp add: scenario_parsed unit_counts_def incr_def ascii_def)

lemma scenario_valid:
  "valid_doses (parse_doses scenario) (ascii ''mg'') = [80, 100, 120, 150, 200, 300]"
  by (simp add: scenario_parsed valid_doses_def ascii_def)

text \<open>
  C2. When the sample of the most common unit has at least five values, the percentiles
  that \<open>analyze_doses\<close> reads at the indices \<open>min(int(count * pct), count - 1)\<close> of the
  sorted values are in order between the smallest and the largest value, and the Heavy band
  is set to p90 followed by \<open>+\<close> and the unit. The product \<open>count * pct\<close> is the rounded
  double product (for 90 values, \<open>int(90 * 0.7)\<close> is 62).
\<close>

theorem percentile_order:
  assumes "max_key (unit_counts (parse_doses doses)) = Some unit"
      and "vs = valid_doses (parse_doses doses) unit"
      and "5 \<le> length vs"
  shows "Min (set vs) \<le> get_p vs float_0_10 \<and>
         get_p vs float_0_10 \<le> get_p vs float_0_30 \<and>
         get_p vs float_0_30 \<le> get_p vs float_0_70 \<and>
         get_p vs float_0_70 \<le> get_p vs float_0_90 \<and>
         get_p vs float_0_90 \<le> Max (set vs) \<and>
         (\<exists>r. analyze_doses doses = Some r \<and>
              Heavy r = float_repr (get_p vs float_0_90) @ ascii ''+ '' @ unit)"
proof -
  have s: "sorted vs"
    using assms(2) by (simp add: sorted_valid_doses)
  have ne: "vs \<noteq> []"
    using assms(3) by auto
  note b = get_p_bounds[OF s ne]
  note m = get_p_mono[OF s ne]
  have "\<exists>r. analyze_doses doses = Some r \<and>
              Heavy r = float_repr (get_p vs float_0_90) @ ascii ''+ '' @ unit"
    using assms(3) ne unfolding analyze_doses_cases[OF assms(1,2)] by (simp add: Let_def)
  then show ?thesis
    using b(1)[of float_0_10] b(2)[of float_0_90] m[OF percent_order(1)] m[OF percent_order(2)]
      m[OF percent_order(3)] by blast
qed

theorem percentile_order_witness:
  "get_p [80, 100, 120, 150, 200, 300] float_0_10 \<le> get_p [80, 100, 120, 150, 200, 300] float_0_30 \<and>
   get_p [80, 100, 120, 150, 200, 300] float_0_30 \<le> get_p [80, 100, 120, 150, 200, 300] float_0_70 \<and>
   get_p [80, 100, 120, 150, 200, 300] float_0_70 \<le> get_p [80, 100, 120, 150, 200, 300] float_0_90 \<and>
   map_option Heavy (analyze_doses scenario) =
     Some (float_repr (get_p [80, 100, 120, 150, 200, 300] float_0_90) @ ascii ''+ '' @ ascii ''mg'')"
  using percentile_order[OF scenario_unit scenario_valid[symmetric]] by auto

text \<open>
  C7. Whatever the doses, a band record that \<open>analyze_doses\<close> returns has Fatal
  \<open>Unknown\<close> and an empty Dangerous.
\<close>

theorem fatal_and_dangerous_fixed:
  "analyze_doses doses = Some r \<Longrightarrow> Fatal r = ascii ''Unknown'' \<and> Dangerous r = []"
  by (auto simp: analyze_doses_def Let_def split: if_splits option.splits)

theorem fatal_and_dangerous_fixed_witness:
  "map_option Fatal (analyze_doses scenario) = Some (ascii ''Unknown'') \<and>
   map_option Dangerous (analyze_doses scenario) = Some []"
  using fatal_and_dangerous_fixed[OF scenario_bands] by (simp add: scenario_bands)

section \<open>Small samples\<close>

lemma formatted_dose_keys_aux:
  "fst ` set (foldl (\<lambda>fd (m, doses). case analyze_doses doses of
                               None \<Rightarrow> fd
                             | Some rng \<Rightarrow> AList.update m rng fd) fd0 methods) =
   fst ` set fd0 \<union> {m. \<exists>doses. (m, doses) \<in> set methods \<and> analyze_doses doses \<noteq> None}"
proof (induction methods arbitrary: fd0)
  case Nil
  then show ?case by simp
next
  case (Cons x methods)
  obtain m doses where x: "x = (m, doses)" by (cases x)
  show ?case
  proof (cases "analyze_doses doses")
    case None
    then show ?thesis using Cons.IH[of fd0] x by auto
  next
    case (Some rng)
    have "fst ` set (AList.update m rng fd0) = insert m (fst ` set fd0)"
      by (simp add: update_conv' flip: dom_map_of_conv_image_fst)
    then show ?thesis using Cons.IH[of "AList.update m rng fd0"] x Some by auto
  qed
qed

lemma formatted_dose_keys:
  "fst ` set (formatted_dose methods) =
     {m. \<exists>doses. (m, doses) \<in> set methods \<and> analyze_doses doses \<noteq> None}"
  unfolding formatted_dose_def formatted_dose_keys_aux by simp

lemma analyze_doses_unparsed: "parse_doses doses = [] \<Longrightarrow> analyze_doses doses = None"
  by (simp add: analyze_doses_def)

lemma unparsed_example: "parse_doses [ascii ''n/a''] = []"
  by (simp add: parse_dose_def text_eval regex_eval float_eval analysis_eval)

lemma single_example: "parse_doses [ascii ''5 mg''] = [(5, ascii ''mg'')]"
  by (simp add: parse_dose_def text_eval regex_eval float_eval analysis_eval)

lemma pair_example: "parse_doses [ascii ''5 mg'', ascii ''7 mg''] = [(5, ascii ''mg''), (7, ascii ''mg'')]"
  by (simp add: parse_dose_def text_eval regex_eval float_eval analysis_eval)

lemma equal_pair_example: "parse_doses [ascii ''5 mg'', ascii ''5.0 mg''] = [(5, ascii ''mg''), (5, ascii ''mg'')]"
  by (simp add: parse_dose_def text_eval regex_eval float_eval analysis_eval)

lemma repr_examples: "float_repr 5 = ascii ''5.0''" "float_repr 7 = ascii ''7.0''"
  by (simp_all add: float_eval ascii_def)

text \<open>
  C3. Where no dose string parses, \<open>analyze_doses\<close> returns \<open>None\<close> and the group gets no
  entry in the output of its substance. Otherwise the sample \<open>vs\<close> of the most common unit
  is not empty. A single value gives a record with only Common set, to that value and the
  unit; two, three or four values give a record with only Common set, to the smallest value
  where it is also the largest and to \<open>min-max\<close> otherwise. Fatal is \<open>Unknown\<close> throughout.
\<close>

theorem small_sample_fallback:
  "(parse_doses doses = [] \<longrightarrow>
      analyze_doses doses = None \<and>
      (distinct (map fst methods) \<and> (m, doses) \<in> set methods \<longrightarrow>
         m \<notin> fst ` set (formatted_dose methods))) \<and>
   (parse_doses doses \<noteq> [] \<longrightarrow>
      (\<exists>unit vs. max_key (unit_counts (parse_doses doses)) = Some unit \<and>
         vs = valid_doses (parse_doses doses) unit \<and> 0 < length vs \<and>
         (length vs = 1 \<longrightarrow>
            analyze_doses doses =
              Some \<lparr>Threshold = [], Light = [], Common = float_repr (vs ! 0) @ ascii '' '' @ unit,
                    Strong = [], Heavy = [], Dangerous = [], Fatal = ascii ''Unknown'',
                    stats = make_stats vs unit\<rparr>) \<and>
         (length vs \<in> {2, 3, 4} \<and> Min (set vs) = Max (set vs) \<longrightarrow>
            analyze_doses doses =
              Some \<lparr>Threshold = [], Light = [],
                    Common = float_repr (Min (set vs)) @ ascii '' '' @ unit,
                    Strong = [], Heavy = [], Dangerous = [], Fatal = ascii ''Unknown'',
                    stats = make_stats vs unit\<rparr>) \<and>
         (length vs \<in> {2, 3, 4} \<and> Min (set vs) \<noteq> Max (set vs) \<longrightarrow>
            analyze_doses doses =
              Some \<lparr>Threshold = [], Light = [],
                    Common = float_repr (Min (set vs)) @ ascii ''-'' @ float_repr (Max (set vs))
                               @ ascii '' '' @ unit,
                    Strong = [], Heavy = [], Dangerous = [], Fatal = ascii ''Unknown'',
                    stats = make_stats vs unit\<rparr>)))"
proof (intro conjI impI)
  assume "parse_doses doses = []"
  then show n: "analyze_doses doses = None" by (rule analyze_doses_unparsed)
  assume d: "distinct (map fst methods) \<and> (m, doses) \<in> set methods"
  have "doses' = doses" if "(m, doses') \<in> set methods" for doses'
    using d that by (meson eq_key_imp_eq_value)
  with n show "m \<notin> fst ` set (formatted_dose methods)"
    unfolding formatted_dose_keys by auto
next
  assume ne: "parse_doses doses \<noteq> []"
  from most_common_unit[OF ne] obtain unit where
    u: "max_key (unit_counts (parse_doses doses)) = Some unit" "unit \<in> snd ` set (parse_doses doses)"
    by blast
  define vs where "vs = valid_doses (parse_doses doses) unit"
  have pos: "0 < length vs"
    unfolding vs_def using u(2) by (rule valid_doses_nonempty)
  have s: "sorted vs" by (simp add: vs_def sorted_valid_doses)
  from pos have nn: "vs \<noteq> []" by auto
  note b = get_p_bounds(3,4)[OF s nn]
  note c = analyze_doses_cases[OF u(1) vs_def]
  have one: "analyze_doses doses =
              Some \<lparr>Threshold = [], Light = [], Common = float_repr (vs ! 0) @ ascii '' '' @ unit,
                    Strong = [], Heavy = [], Dangerous = [], Fatal = ascii ''Unknown'',
                    stats = make_stats vs unit\<rparr>" if "length vs = 1"
    using that unfolding c by (simp add: Let_def)
  have few: "analyze_doses doses =
              Some \<lparr>Threshold = [], Light = [], Common = fmt unit (Min (set vs)) (Max (set vs)),
                    Strong = [], Heavy = [], Dangerous = [], Fatal = ascii ''Unknown'',
                    stats = make_stats vs unit\<rparr>" if "length vs \<in> {2, 3, 4}"
    using that nn unfolding c by (auto simp: Let_def b)
  show "\<exists>unit vs. max_key (unit_counts (parse_doses doses)) = Some unit \<and>
         vs = valid_doses (parse_doses doses) unit \<and> 0 < length vs \<and>
         (length vs = 1 \<longrightarrow>
            analyze_doses doses =
              Some \<lparr>Threshold = [], Light = [], Common = float_repr (vs ! 0) @ ascii '' '' @ unit,
                    Strong = [], Heavy = [], Dangerous = [], Fatal = ascii ''Unknown'',
                    stats = make_stats vs unit\<rparr>) \<and>
         (length vs \<in> {2, 3, 4} \<and> Min (set vs) = Max (set vs) \<longrightarrow>
            analyze_doses doses =
              Some \<lparr>Threshold = [], Light = [],
                    Common = float_repr (Min (set vs)) @ ascii '' '' @ unit,
                    Strong = [], Heavy = [], Dangerous = [], Fatal = ascii ''Unknown'',
                    stats = make_stats vs unit\<rparr>) \<and>
         (length vs \<in> {2, 3, 4} \<and> Min (set vs) \<noteq> Max (set vs) \<longrightarrow>
            analyze_doses doses =
              Some \<lparr>Threshold = [], Light = [],
                    Common = float_repr (Min (set vs)) @ ascii ''-'' @ float_repr (Max (set vs))
                               @ ascii '' '' @ unit,
                    Strong = [], Heavy = [], Dangerous = [], Fatal = ascii ''Unknown'',
                    stats = make_stats vs unit\<rparr>)"
    apply (rule exI[of _ unit], rule exI[of _ vs])
    using u(1) vs_def pos one few by (simp add: fmt_def)
qed

theorem small_sample_fallback_witness:
  "analyze_doses [ascii ''n/a''] = None \<and>
   ascii ''oral'' \<notin> fst ` set (formatted_dose [(ascii ''oral'', [ascii ''n/a''])]) \<and>
   map_option Common (analyze_doses [ascii ''5 mg'']) = Some (ascii ''5.0 mg'') \<and>
   map_option Common (analyze_doses [ascii ''5 mg'', ascii ''5.0 mg'']) = Some (ascii ''5.0 mg'') \<and>
   map_option Common (analyze_doses [ascii ''5 mg'', ascii ''7 mg'']) = Some (ascii ''5.0-7.0 mg'')"
proof -
  have a: "analyze_doses [ascii ''n/a''] = None \<and>
      ascii ''oral'' \<notin> fst ` set (formatted_dose [(ascii ''oral'', [ascii ''n/a''])])"
    using small_sample_fallback[of "[ascii ''n/a'']" "[(ascii ''oral'', [ascii ''n/a''])]" "ascii ''oral''"]
    by (simp add: unparsed_example)
  have b: "map_option Common (analyze_doses [ascii ''5 mg'']) = Some (ascii ''5.0 mg'')"
    using small_sample_fallback[of "[ascii ''5 mg'']"]
    by (clarsimp simp: single_example unit_counts_def incr_def valid_doses_def repr_examples) (simp add: ascii_def)
  have c: "map_option Common (analyze_doses [ascii ''5 mg'', ascii ''5.0 mg'']) = Some (ascii ''5.0 mg'')"
    using small_sample_fallback[of "[ascii ''5 mg'', ascii ''5.0 mg'']"]
    by (clarsimp simp: equal_pair_example unit_counts_def incr_def valid_doses_def repr_examples) (simp add: ascii_def)
  have d: "map_option Common (analyze_doses [ascii ''5 mg'', ascii ''7 mg'']) = Some (ascii ''5.0-7.0 mg'')"
    using small_sample_fallback[of "[ascii ''5 mg'', ascii ''7 mg'']"]
    by (clarsimp simp: pair_example unit_counts_def incr_def valid_doses_def repr_examples) (simp add: ascii_def)
  from a b c d show ?thesis by blast
qed

section \<open>One unit\<close>

lemma parse_doses_filter:
  "parse_doses (filter (\<lambda>d. map_option snd (parse_dose d) = Some unit) doses) =
     filter (\<lambda>p. snd p = unit) (parse_doses doses)"
  by (induction doses) (auto simp: parse_doses_def List.map_filter_simps split: option.splits)

lemma foldl_incr_same: "foldl incr [(u, n)] (replicate k u) = [(u, n + k)]"
  by (induction k arbitrary: n) (simp_all add: incr_def)

lemma unit_counts_single_unit:
  assumes "parsed \<noteq> []" "\<forall>p \<in> set parsed. snd p = u"
  shows "unit_counts parsed = [(u, length parsed)]"
proof -
  have "map snd parsed = replicate (length parsed) u"
    using assms(2) by (simp add: map_replicate_const[symmetric] cong: map_cong)
  moreover obtain k where "length parsed = Suc k"
    using assms(1) by (cases parsed) auto
  ultimately show ?thesis
    using foldl_incr_same[of u 1 k] by (simp add: unit_counts_def incr_def)
qed

lemma analyze_doses_stats:
  assumes "max_key (unit_counts (parse_doses doses)) = Some unit"
      and "vs = valid_doses (parse_doses doses) unit" and "vs \<noteq> []"
  shows "\<exists>r. analyze_doses doses = Some r \<and> stats r = make_stats vs unit"
  using assms(3) unfolding analyze_doses_cases[OF assms(1,2)] by (auto simp: Let_def)

lemma sorted_keys_pairs:
  "sorted ks \<Longrightarrow> distinct ks \<Longrightarrow> sorted (map (\<lambda>k. (k, f k)) ks)"
  by (induction ks) (auto simp: less_eq_prod_def order_less_le)

lemma histogram_sorted_keys:
  "histogram vs = map (\<lambda>k. (k, count_list vs k)) (sorted_list_of_set (set vs))"
proof -
  let ?d = "foldl incr [] vs"
  have dist: "distinct (map fst ?d)" by (simp add: foldl_incr_distinct)
  then have dd: "distinct ?d" by (rule distinct_map[THEN iffD1, THEN conjunct1])
  have keys: "fst ` set ?d = set vs" by (simp add: foldl_incr_keys)
  have val: "v = count_list vs k" if "(k, v) \<in> set ?d" for k v
    using tally_member[OF dist that] by (simp add: tally_foldl_incr tally_Nil)
  have set_eq: "set ?d = (\<lambda>k. (k, count_list vs k)) ` set vs"
  proof (intro set_eqI iffI)
    fix x assume x: "x \<in> set ?d"
    obtain k v where kv: "x = (k, v)" by (cases x)
    with x keys have "k \<in> set vs" by force
    with val x kv show "x \<in> (\<lambda>k. (k, count_list vs k)) ` set vs" by auto
  next
    fix x assume "x \<in> (\<lambda>k. (k, count_list vs k)) ` set vs"
    then obtain k where k: "k \<in> set vs" "x = (k, count_list vs k)" by auto
    with keys obtain v where "(k, v) \<in> set ?d" by force
    with val k show "x \<in> set ?d" by auto
  qed
  let ?r = "map (\<lambda>k. (k, count_list vs k)) (sorted_list_of_set (set vs))"
  have "sorted ?r" by (rule sorted_keys_pairs) simp_all
  moreover have "distinct ?r" by (simp add: distinct_map inj_on_def)
  moreover have "set ?r = set (sort ?d)" by (simp add: set_eq)
  moreover have "sorted (sort ?d)" "distinct (sort ?d)" using dd by simp_all
  ultimately have "sort ?d = ?r" by (metis sorted_distinct_set_unique)
  then show ?thesis by (simp add: histogram_def)
qed

lemma mixed_parse:
  "parse_dose (ascii ''10 mg'') = Some (10, ascii ''mg'')"
  "parse_dose (ascii ''20 mg'') = Some (20, ascii ''mg'')"
  "parse_dose (ascii ''30 mg'') = Some (30, ascii ''mg'')"
  "parse_dose (ascii ''1 g'') = Some (1, ascii ''g'')"
  "parse_dose (ascii ''2 g'') = Some (2, ascii ''g'')"
  by (simp_all add: parse_dose_def text_eval regex_eval float_eval)

lemma mixed_names: "ascii ''mg'' \<noteq> ascii ''g''" "ascii ''g'' \<noteq> ascii ''mg''"
  by (simp_all add: ascii_def)

lemma mixed_repr:
  "float_repr 10 @ ascii '' '' @ ascii ''mg'' = ascii ''10.0 mg''"
  "float_repr 20 @ ascii '' '' @ ascii ''mg'' = ascii ''20.0 mg''"
  "float_repr 30 @ ascii '' '' @ ascii ''mg'' = ascii ''30.0 mg''"
  by (simp_all add: float_eval ascii_def)

lemma mixed_keys:
  "ascii ''10.0 mg'' \<noteq> ascii ''20.0 mg''" "ascii ''10.0 mg'' \<noteq> ascii ''30.0 mg''"
  "ascii ''20.0 mg'' \<noteq> ascii ''30.0 mg''" "ascii ''20.0 mg'' \<noteq> ascii ''10.0 mg''"
  "ascii ''30.0 mg'' \<noteq> ascii ''10.0 mg''" "ascii ''30.0 mg'' \<noteq> ascii ''20.0 mg''"
  by (simp_all add: ascii_def)

text \<open>
  C4. Where a dose string parses, \<open>analyze_doses\<close> selects a unit that no other unit
  exceeds in frequency; the result is the result on the strings of that unit alone;
  \<open>total_reports\<close> counts the samples of that unit only, and the histogram has one key for
  each of their values, in strictly ascending order of the values, with the number of
  occurrences.
\<close>

theorem unit_isolation:
  assumes "parse_doses doses \<noteq> []"
  shows "\<exists>unit vs. max_key (unit_counts (parse_doses doses)) = Some unit \<and>
           unit \<in> snd ` set (parse_doses doses) \<and>
           (\<forall>u. length (filter (\<lambda>p. snd p = u) (parse_doses doses))
                  \<le> length (filter (\<lambda>p. snd p = unit) (parse_doses doses))) \<and>
           vs = sort (map fst (filter (\<lambda>p. snd p = unit) (parse_doses doses))) \<and>
           analyze_doses doses =
             analyze_doses (filter (\<lambda>d. map_option snd (parse_dose d) = Some unit) doses) \<and>
           (\<exists>r. analyze_doses doses = Some r \<and>
                total_reports (stats r) = length (filter (\<lambda>p. snd p = unit) (parse_doses doses)) \<and>
                distribution (stats r) =
                  foldl (\<lambda>d (k, v). AList.update (float_repr k @ ascii '' '' @ unit) v d) []
                    (map (\<lambda>k. (k, count_list vs k)) (sorted_list_of_set (set vs))))"
proof -
  let ?parsed = "parse_doses doses"
  from most_common_unit[OF assms] obtain unit where
    u: "max_key (unit_counts ?parsed) = Some unit" "unit \<in> snd ` set ?parsed"
       "\<forall>u. length (filter (\<lambda>p. snd p = u) ?parsed) \<le> length (filter (\<lambda>p. snd p = unit) ?parsed)"
    by blast
  define vs where "vs = valid_doses ?parsed unit"
  have vs: "vs = sort (map fst (filter (\<lambda>p. snd p = unit) ?parsed))"
    by (simp add: vs_def valid_doses_def)
  have ne: "vs \<noteq> []"
    using valid_doses_nonempty[OF u(2)] by (auto simp: vs_def)
  let ?doses' = "filter (\<lambda>d. map_option snd (parse_dose d) = Some unit) doses"
  let ?parsed' = "filter (\<lambda>p. snd p = unit) ?parsed"
  have p': "parse_doses ?doses' = ?parsed'" by (rule parse_doses_filter)
  have ne': "?parsed' \<noteq> []" using u(2) by (auto simp: filter_empty_conv)
  have "unit_counts ?parsed' = [(unit, length ?parsed')]"
    using ne' by (rule unit_counts_single_unit) simp
  then have "max_key (unit_counts ?parsed') = Some unit"
    by simp
  then have u': "max_key (unit_counts (parse_doses ?doses')) = Some unit"
    unfolding p' .
  have "vs = valid_doses ?parsed' unit"
    by (simp add: vs_def valid_doses_def)
  then have vs': "vs = valid_doses (parse_doses ?doses') unit"
    unfolding p' .
  have same: "analyze_doses doses = analyze_doses ?doses'"
    unfolding analyze_doses_cases[OF u(1) vs_def] analyze_doses_cases[OF u' vs'] ..
  from analyze_doses_stats[OF u(1) vs_def ne] obtain r where
    r: "analyze_doses doses = Some r" "stats r = make_stats vs unit" by blast
  have "total_reports (stats r) = length ?parsed'"
    by (simp add: r(2) make_stats_def vs)
  moreover have "distribution (stats r) =
      foldl (\<lambda>d (k, v). AList.update (float_repr k @ ascii '' '' @ unit) v d) []
        (map (\<lambda>k. (k, count_list vs k)) (sorted_list_of_set (set vs)))"
    by (simp add: r(2) make_stats_def histogram_sorted_keys)
  ultimately show ?thesis
    using u vs same r(1) by blast
qed

theorem unit_isolation_witness:
  "map_option (total_reports \<circ> stats) (analyze_doses mixed_units) = Some 4 \<and>
   map_option (distribution \<circ> stats) (analyze_doses mixed_units) =
     Some [(ascii ''10.0 mg'', 1), (ascii ''20.0 mg'', 2), (ascii ''30.0 mg'', 1)] \<and>
   analyze_doses mixed_units = analyze_doses (map ascii [''10 mg'', ''20 mg'', ''30 mg'', ''20 mg''])"
proof -
  have p: "parse_doses mixed_units =
      [(10, ascii ''mg''), (1, ascii ''g''), (20, ascii ''mg''), (2, ascii ''g''),
       (30, ascii ''mg''), (20, ascii ''mg'')]"
    by (simp add: mixed_units_def parse_doses_def List.map_filter_simps mixed_parse)
  have m: "max_key (unit_counts (parse_doses mixed_units)) = Some (ascii ''mg'')"
    by (simp add: p unit_counts_def incr_def mixed_names)
  have f: "filter (\<lambda>d. map_option snd (parse_dose d) = Some (ascii ''mg'')) mixed_units =
      map ascii [''10 mg'', ''20 mg'', ''30 mg'', ''20 mg'']"
    by (simp add: mixed_units_def mixed_parse mixed_names)
  have ne: "parse_doses mixed_units \<noteq> []"
    by (simp add: p)
  from unit_isolation[OF ne] obtain unit vs r where
    h: "max_key (unit_counts (parse_doses mixed_units)) = Some unit"
       "vs = sort (map fst (filter (\<lambda>p. snd p = unit) (parse_doses mixed_units)))"
       "analyze_doses mixed_units =
          analyze_doses (filter (\<lambda>d. map_option snd (parse_dose d) = Some unit) mixed_units)"
       "analyze_doses mixed_units = Some r"
       "total_reports (stats r) = length (filter (\<lambda>p. snd p = unit) (parse_doses mixed_units))"
       "distribution (stats r) =
          foldl (\<lambda>d (k, v). AList.update (float_repr k @ ascii '' '' @ unit) v d) []
            (map (\<lambda>k. (k, count_list vs k)) (sorted_list_of_set (set vs)))"
    by blast
  from h(1) m have unit: "unit = ascii ''mg''" by simp
  have vs: "vs = [10, 20, 20, 30]"
    unfolding h(2) unit p by (simp add: mixed_names)
  have t: "total_reports (stats r) = 4"
    unfolding h(5) unit p by (simp add: mixed_names)
  have d: "distribution (stats r) =
      [(ascii ''10.0 mg'', 1), (ascii ''20.0 mg'', 2), (ascii ''30.0 mg'', 1)]"
    unfolding h(6) unit vs
    by (simp add: sorted_list_of_set_sort_remdups mixed_repr mixed_keys)
  from h(3) have "analyze_doses mixed_units =
      analyze_doses (map ascii [''10 mg'', ''20 mg'', ''30 mg'', ''20 mg''])"
    unfolding unit f .
  with h(4) t d show ?thesis by simp
qed

section \<open>The progress ledger\<close>


lemma load_progress_raises:
  "e \<noteq> JSONDecodeError \<Longrightarrow> load_progress (Some (Inl e)) = Inl e"
  by (simp add: load_progress_def)

section \<open>Resuming a run\<close>

lemma doses_of_touch: "doses_of (touch s c) s' m' = doses_of c s' m'"
  by (auto simp: doses_of_def touch_def split: option.splits if_splits)

lemma doses_of_append:
  "doses_of (append_dose s m d c) s' m' =
     (if s' = s \<and> m' = m then doses_of c s m @ [d] else doses_of c s' m')"
  by (auto simp: doses_of_def append_dose_def update_conv' split: option.splits)

lemma merge_item_mono:
  "x \<in> set (doses_of c s m) \<Longrightarrow> x \<in> set (doses_of (fst (merge_item c item)) s m)"
  by (auto simp: merge_item_def doses_of_touch doses_of_append
      split: sum.splits bool.splits json.splits option.splits)

lemma merge_items_mono:
  "x \<in> set (doses_of c s m) \<Longrightarrow> x \<in> set (doses_of (merge_items c items) s m)"
proof (induction items arbitrary: c)
  case Nil
  then show ?case by simp
next
  case (Cons item items)
  obtain c' e where ce: "merge_item c item = (c', e)" by (cases "merge_item c item")
  with merge_item_mono[OF Cons.prems, of item] have x: "x \<in> set (doses_of c' s m)" by simp
  show ?case
  proof (cases e)
    case None
    with ce Cons.IH[OF x] show ?thesis by simp
  next
    case (Some err)
    with ce x show ?thesis by simp
  qed
qed

lemma merge_file_mono:
  "x \<in> set (doses_of c s m) \<Longrightarrow> x \<in> set (doses_of (merge_file c tf) s m)"
  by (auto simp: merge_file_def merge_items_mono split: sum.splits json.splits option.splits)

lemma foldl_merge_file_mono:
  "x \<in> set (doses_of c s m) \<Longrightarrow> x \<in> set (doses_of (foldl merge_file c tfs) s m)"
  by (induction tfs arbitrary: c) (auto simp: merge_file_mono)

lemma field_names:
  "ascii ''substance'' \<noteq> ascii ''dose''" "ascii ''substance'' \<noteq> ascii ''method''"
  "ascii ''dose'' \<noteq> ascii ''method''" "ascii ''dose'' \<noteq> ascii ''substance''"
  "ascii ''method'' \<noteq> ascii ''substance''" "ascii ''method'' \<noteq> ascii ''dose''"
  "ascii ''url'' \<noteq> ascii ''doses''" "ascii ''doses'' \<noteq> ascii ''url''"
  by (simp_all add: ascii_def)

lemma merge_item_record:
  "merge_item c (record_json r) =
     (append_dose (JStr (substance r)) (JStr (method r)) (JStr (dose r)) c, None)"
  by (simp add: merge_item_def has_fields_def contains_def record_json_def hashable_def field_names)

lemma merge_items_records:
  "r \<in> set recs \<Longrightarrow>
   JStr (dose r) \<in> set (doses_of (merge_items c (map record_json recs))
                            (JStr (substance r)) (JStr (method r)))"
proof (induction recs arbitrary: c)
  case Nil
  then show ?case by simp
next
  case (Cons a recs)
  show ?case
  proof (cases "r = a")
    case True
    have "JStr (dose r) \<in> set (doses_of (append_dose (JStr (substance r)) (JStr (method r)) (JStr (dose r)) c)
                                   (JStr (substance r)) (JStr (method r)))"
      by (simp add: doses_of_append)
    then show ?thesis
      using True by (simp add: merge_item_record merge_items_mono)
  next
    case False
    with Cons.prems have "r \<in> set recs" by simp
    then show ?thesis by (simp add: merge_item_record Cons.IH)
  qed
qed

lemma merge_file_report:
  "merge_file c (Inr (temp_report url recs timestamp)) = merge_items c (map record_json recs)"
  by (simp add: merge_file_def temp_report_def field_names)

lemma foldl_merge_file_report:
  assumes "Inr (temp_report url recs timestamp) \<in> set tfs" "r \<in> set recs"
  shows "JStr (dose r) \<in> set (doses_of (foldl merge_file c tfs) (JStr (substance r)) (JStr (method r)))"
  using assms(1)
proof (induction tfs arbitrary: c)
  case Nil
  then show ?case by simp
next
  case (Cons tf tfs)
  show ?case
  proof (cases "tf = Inr (temp_report url recs timestamp)")
    case True
    have "JStr (dose r) \<in> set (doses_of (merge_file c tf) (JStr (substance r)) (JStr (method r)))"
      unfolding True merge_file_report using assms(2) by (rule merge_items_records)
    then show ?thesis by (simp add: foldl_merge_file_mono)
  next
    case False
    with Cons.prems have "Inr (temp_report url recs timestamp) \<in> set tfs" by simp
    then show ?thesis by (simp add: Cons.IH)
  qed
qed

text \<open>
  C5. A URL that the ledger maps to \<open>done\<close> is not in the scrape queue; a report URL with
  any other status, or with none, is. The merge does not read the ledger: for every file of
  the report store that holds the result of a report as \<open>save_temp_report\<close> writes it, the
  dose of each of its records is in the aggregate under the record's substance and method,
  whatever else the store holds.
\<close>

theorem resume_correctness:
  "(map_of progress u = Some (JStr (ascii ''done'')) \<longrightarrow>
      u \<notin> set (urls_to_scrape all_report_urls progress)) \<and>
   (u \<in> set all_report_urls \<and> map_of progress u \<noteq> Some (JStr (ascii ''done'')) \<longrightarrow>
      u \<in> set (urls_to_scrape all_report_urls progress)) \<and>
   (Inr (temp_report url recs timestamp) \<in> set temp_files \<and> r \<in> set recs \<longrightarrow>
      JStr (dose r) \<in> set (doses_of (merge_files temp_files) (JStr (substance r)) (JStr (method r))))"
  by (auto simp: urls_to_scrape_def merge_files_def intro: foldl_merge_file_report)

theorem resume_correctness_witness:
  "ascii ''exp.php?ID=1'' \<notin> set (urls_to_scrape frontier ledger) \<and>
   ascii ''exp.php?ID=2'' \<in> set (urls_to_scrape frontier ledger) \<and>
   ascii ''exp.php?ID=3'' \<in> set (urls_to_scrape frontier ledger) \<and>
   ascii ''exp.php?ID=4'' \<in> set (urls_to_scrape frontier ledger) \<and>
   JStr (ascii ''100 ug'') \<in> set (doses_of (merge_files stored) (JStr (ascii ''LSD'')) (JStr (ascii ''oral'')))"
proof -
  let ?r = "\<lparr>substance = ascii ''LSD'', dose = ascii ''100 ug'', method = ascii ''oral''\<rparr>"
  have a: "ascii ''exp.php?ID=1'' \<notin> set (urls_to_scrape frontier ledger)"
    using resume_correctness[where progress = ledger and u = "ascii ''exp.php?ID=1''" and all_report_urls = frontier]
    by (simp add: ledger_def)
  have b: "ascii ''exp.php?ID=2'' \<in> set (urls_to_scrape frontier ledger)"
    using resume_correctness[where progress = ledger and u = "ascii ''exp.php?ID=2''" and all_report_urls = frontier]
    by (simp add: ledger_def frontier_def ascii_def)
  have c: "ascii ''exp.php?ID=3'' \<in> set (urls_to_scrape frontier ledger)"
    using resume_correctness[where progress = ledger and u = "ascii ''exp.php?ID=3''" and all_report_urls = frontier]
    by (simp add: ledger_def frontier_def ascii_def)
  have d: "ascii ''exp.php?ID=4'' \<in> set (urls_to_scrape frontier ledger)"
    using resume_correctness[where progress = ledger and u = "ascii ''exp.php?ID=4''" and all_report_urls = frontier]
    by (simp add: ledger_def frontier_def ascii_def)
  have e: "JStr (ascii ''100 ug'') \<in> set (doses_of (merge_files stored) (JStr (ascii ''LSD'')) (JStr (ascii ''oral'')))"
    using resume_correctness[where temp_files = stored and url = "ascii ''exp.php?ID=1''"
        and recs = "[?r]" and timestamp = "ascii ''2025-01-01T00:00:00''" and r = ?r]
    by (simp add: stored_def)
  from a b c d e show ?thesis by blast
qed

section \<open>The order of the output\<close>























section \<open>The records of the extractor\<close>

lemma take_run:
  assumes "k \<le> length (takeWhile P s)"
  shows "\<forall>c \<in> set (take k s). P c"
proof -
  have "take k s = take k (takeWhile P s)"
    using assms by (metis append_eq_conv_conj takeWhile_dropWhile_id take_append take_all_iff
        diff_is_0_eq take_0 append_Nil2 min.absorb2 take_take)
  then show ?thesis
    by (metis in_set_takeD set_takeWhileD)
qed

lemma greedy_star_set:
  "(a, r) \<in> set (greedy_star P s) \<Longrightarrow> s = a @ r \<and> (\<forall>c \<in> set a. P c)"
proof -
  assume "(a, r) \<in> set (greedy_star P s)"
  then obtain k where k: "k \<le> length (takeWhile P s)" "a = take k s" "r = drop k s"
    by (auto simp: greedy_star_def less_Suc_eq_le simp del: upt_Suc)
  with take_run[OF k(1)] show ?thesis by simp
qed

lemma greedy_plus_set:
  "(a, r) \<in> set (greedy_plus P s) \<Longrightarrow> s = a @ r \<and> a \<noteq> [] \<and> (\<forall>c \<in> set a. P c)"
proof -
  assume "(a, r) \<in> set (greedy_plus P s)"
  then obtain k where k: "1 \<le> k" "k \<le> length (takeWhile P s)" "a = take k s" "r = drop k s"
    by (auto simp: greedy_plus_def less_Suc_eq_le simp del: upt_Suc)
  have "length (takeWhile P s) \<le> length s" by (rule length_takeWhile_le)
  with k(1,2) have "a \<noteq> []" by (auto simp: k(3))
  with k take_run[OF k(2)] show ?thesis by simp
qed

lemma lazy_plus_set:
  "(a, r) \<in> set (lazy_plus P s) \<Longrightarrow> s = a @ r \<and> a \<noteq> [] \<and> (\<forall>c \<in> set a. P c)"
proof -
  assume "(a, r) \<in> set (lazy_plus P s)"
  then obtain k where k: "1 \<le> k" "k \<le> length (takeWhile P s)" "a = take k s" "r = drop k s"
    by (auto simp: lazy_plus_def less_Suc_eq_le simp del: upt_Suc)
  have "length (takeWhile P s) \<le> length s" by (rule length_takeWhile_le)
  with k(1,2) have "a \<noteq> []" by (auto simp: k(3))
  with k take_run[OF k(2)] show ?thesis by simp
qed

lemma literal_set: "(a, r) \<in> set (literal w s) \<Longrightarrow> a = w \<and> s = w @ r"
  by (auto simp: literal_def split: if_splits) (metis append_take_drop_id)

lemma literal_ci_set:
  "(a, r) \<in> set (literal_ci w s) \<Longrightarrow> s = a @ r \<and> list_all2 ci_char w a"
  by (auto simp: literal_ci_def split: if_splits)

lemma is_numeral_digits: "a \<noteq> [] \<Longrightarrow> \<forall>c \<in> set a. isdigit c \<Longrightarrow> is_numeral a"
  by (simp add: is_numeral_def Let_def takeWhile_eq_all_conv[THEN iffD2] dropWhile_eq_Nil_conv[THEN iffD2])

lemma is_numeral_fraction:
  assumes "a \<noteq> []" "\<forall>c \<in> set a. isdigit c" "f \<noteq> []" "\<forall>c \<in> set f. isdigit c"
  shows "is_numeral (a @ 46 # f)"
proof -
  have "\<not> isdigit 46" by (simp add: isdigit_def)
  then have "takeWhile isdigit (a @ 46 # f) = a" "dropWhile isdigit (a @ 46 # f) = 46 # f"
    using assms(2) by (simp_all add: takeWhile_append2 dropWhile_append2)
  then show ?thesis
    using assms by (simp add: is_numeral_def list_all_iff)
qed

lemma number_set: "(a, r) \<in> set (number s) \<Longrightarrow> s = a @ r \<and> is_numeral a"
  by (auto simp: number_def set_list_bind dest!: greedy_plus_set literal_set
      intro: is_numeral_digits is_numeral_fraction)

lemma units_set:
  "(a, r) \<in> set (units s) \<Longrightarrow> s = a @ r \<and> (\<exists>w \<in> set unit_words. list_all2 ci_char w a)"
  by (auto simp: units_def dest!: literal_ci_set)

lemma routes_set:
  "(a, r) \<in> set (routes s) \<Longrightarrow> s = a @ r \<and> (\<exists>w \<in> set route_words. list_all2 ci_char w a)"
  by (auto simp: routes_def dest!: literal_ci_set)

lemma dose_pattern_set:
  assumes "((dose_amount, unit, route, sub_name), rest) \<in> set (dose_pattern s)"
  shows "is_numeral dose_amount \<and> (\<exists>w \<in> set unit_words. list_all2 ci_char w unit) \<and>
         (\<exists>w \<in> set route_words. list_all2 ci_char w route) \<and>
         sub_name \<noteq> [] \<and> (\<forall>c \<in> set sub_name. sub_class c)"
  using assms unfolding dose_pattern_def
  by (auto simp: set_list_bind dest!: number_set units_set routes_set lazy_plus_set)

lemma findall_set:
  "g \<in> set (findall skip t) \<Longrightarrow> \<exists>s rest others. dose_pattern s = (g, rest) # others"
proof (induction skip t rule: findall.induct)
  case (1 skip)
  then show ?case by simp
next
  case (2 skip c cs)
  then show ?case by simp
next
  case (3 c cs)
  show ?case
  proof (cases "dose_pattern (c # cs)")
    case Nil
    with 3 show ?thesis by simp
  next
    case (Cons m others)
    obtain groups rest where m: "m = (groups, rest)" by (cases m)
    from 3(3) Cons m have "g = groups \<or> g \<in> set (findall (length cs - length rest) cs)"
      by simp
    then show ?thesis
    proof
      assume "g = groups"
      with Cons m show ?thesis by blast
    next
      assume "g \<in> set (findall (length cs - length rest) cs)"
      with 3(2)[OF Cons m[symmetric]] show ?thesis by simp
    qed
  qed
qed

lemma ci_ascii_lower:
  "ci_char p c \<Longrightarrow> ascii_letter p \<Longrightarrow> \<forall>x \<in> set (lower_cp c). x < 128 \<Longrightarrow> lower_cp c = lower_cp p"
  by (auto simp: ci_char_def re_lower_def case_fixes_def lower_cp_def ascii_letter_def
      split: if_splits)

lemma lower_ci:
  "list_all2 ci_char w a \<Longrightarrow> \<forall>p \<in> set w. ascii_letter p \<Longrightarrow> \<forall>x \<in> set (lower a). x < 128 \<Longrightarrow>
   lower a = lower w"
proof (induction rule: list_all2_induct)
  case Nil
  then show ?case by simp
next
  case (Cons p w c a)
  from Cons.prems have "lower_cp c = lower_cp p"
    by (intro ci_ascii_lower[OF Cons.hyps(1)]) (auto simp: lower_def)
  moreover from Cons.prems have "lower a = lower w"
    by (intro Cons.IH) (auto simp: lower_def)
  ultimately show ?case by (simp add: lower_def)
qed

lemma ci_letter_forms:
  "ci_char p c \<Longrightarrow> ascii_letter p \<Longrightarrow>
   lower_cp p = [re_lower p] \<and> lower_cp c \<in> set (letter_forms (re_lower p))"
  by (auto simp: ci_char_def re_lower_def case_fixes_def lower_cp_def ascii_letter_def
      letter_forms_def split: if_splits)

lemma lower_forms:
  "list_all2 ci_char w a \<Longrightarrow> \<forall>p \<in> set w. ascii_letter p \<Longrightarrow> lower a \<in> set (word_forms (lower w))"
proof (induction rule: list_all2_induct)
  case Nil
  then show ?case by (simp add: lower_def)
next
  case (Cons p w c a)
  from Cons.prems have "ascii_letter p" by simp
  from ci_letter_forms[OF Cons.hyps(1) this] have
    p: "lower_cp p = [re_lower p]" and c: "lower_cp c \<in> set (letter_forms (re_lower p))"
    by simp_all
  from Cons.prems have t: "lower a \<in> set (word_forms (lower w))"
    by (intro Cons.IH) simp
  have "lower (c # a) = lower_cp c @ lower a" "lower (p # w) = re_lower p # lower w"
    by (simp_all add: lower_def p)
  with c t show ?case by auto
qed

lemma route_words_letters: "\<forall>w \<in> set route_words. \<forall>p \<in> set w. ascii_letter p"
  by (simp add: route_words_def ascii_def ascii_letter_def)

lemma sub_class_clean: "sub_class c \<Longrightarrow> isword c \<or> isspace c \<or> c = 44 \<or> c = 45"
  by (auto simp: sub_class_def re_lower_def isword_def isspace_def Let_def split: if_splits)

lemma set_collapse: "set (collapse b t) \<subseteq> {c \<in> set t. \<not> isspace c} \<union> {32}"
  by (induction b t rule: collapse.induct) auto

lemma collapse_spacing:
  "single_spaced (collapse b t) \<and> (b \<longrightarrow> collapse b t = [] \<or> \<not> isspace (hd (collapse b t)))"
proof (induction b t rule: collapse.induct)
  case (1 prev)
  then show ?case by simp
next
  case (2 prev c cs)
  show ?case
  proof (cases "isspace c")
    case True
    with 2 show ?thesis
      by (cases "collapse True cs") auto
  next
    case False
    with 2 show ?thesis
      by (cases "collapse False cs") auto
  qed
qed

lemma collapse_last:
  "t \<noteq> [] \<Longrightarrow> \<not> isspace (last t) \<Longrightarrow> collapse b t \<noteq> [] \<and> last (collapse b t) = last t"
  by (induction b t rule: collapse.induct) (auto split: if_splits)

lemma collapse_hd:
  "t \<noteq> [] \<Longrightarrow> \<not> isspace (hd t) \<Longrightarrow> collapse False t \<noteq> [] \<and> hd (collapse False t) = hd t"
  by (cases t) auto

lemma set_strip: "set (strip t) \<subseteq> set t"
  by (auto simp: strip_def dest!: set_dropWhileD)

lemma strip_ends:
  "strip t = [] \<or> (\<not> isspace (hd (strip t)) \<and> \<not> isspace (last (strip t)))"
proof (cases "strip t = []")
  case True
  then show ?thesis by simp
next
  case False
  let ?u = "dropWhile isspace t"
  let ?v = "dropWhile isspace (rev ?u)"
  from False have v: "?v \<noteq> []" by (simp add: strip_def)
  then have "\<not> isspace (hd ?v)" by (rule hd_dropWhile)
  then have l: "\<not> isspace (last (strip t))"
    using v by (simp add: strip_def last_rev)
  have "rev ?u = takeWhile isspace (rev ?u) @ ?v" by simp
  then have "?u = rev ?v @ rev (takeWhile isspace (rev ?u))"
    by (metis rev_append rev_rev_ident)
  then have "hd ?u = hd (rev ?v)" using v by (metis hd_append2 rev_is_Nil_conv)
  moreover have "?u \<noteq> []"
  proof
    assume a: "?u = []"
    have "?v = []" unfolding a by simp
    with v show False by simp
  qed
  then have "\<not> isspace (hd ?u)" by (rule hd_dropWhile)
  ultimately have "\<not> isspace (hd (strip t))" by (simp add: strip_def)
  with l show ?thesis by simp
qed

lemma clean_sub_shape:
  assumes "\<forall>c \<in> set sub_name. sub_class c"
  shows "clean_sub sub_name = collapse False (strip sub_name)"
    and "clean_sub sub_name = [] \<or>
           (\<not> isspace (hd (clean_sub sub_name)) \<and> \<not> isspace (last (clean_sub sub_name)))"
    and "single_spaced (clean_sub sub_name)"
    and "\<forall>c \<in> set (clean_sub sub_name). isword c \<or> c = 44 \<or> c = 45 \<or> c = 32"
proof -
  let ?t = "strip sub_name"
  have cls: "isword c \<or> c = 44 \<or> c = 45 \<or> c = 32" if "c \<in> set (collapse False ?t)" for c
  proof -
    from that set_collapse[of False ?t] have "c = 32 \<or> (c \<in> set ?t \<and> \<not> isspace c)" by auto
    then show ?thesis
    proof
      assume "c = 32" then show ?thesis by simp
    next
      assume c: "c \<in> set ?t \<and> \<not> isspace c"
      with set_strip[of sub_name] assms have "sub_class c" by auto
      with c sub_class_clean[of c] show ?thesis by auto
    qed
  qed
  have sp: "isspace 32" by (simp add: isspace_def)
  have "\<forall>c \<in> set (collapse False ?t). isword c \<or> isspace c \<or> c = 44 \<or> c = 45"
    using cls sp by blast
  then have "filter (\<lambda>c. isword c \<or> isspace c \<or> c = 44 \<or> c = 45) (collapse False ?t) = collapse False ?t"
    by (simp add: filter_id_conv)
  then show eq: "clean_sub sub_name = collapse False ?t"
    by (simp add: clean_sub_def keep_clean_def)
  show "clean_sub sub_name = [] \<or>
           (\<not> isspace (hd (clean_sub sub_name)) \<and> \<not> isspace (last (clean_sub sub_name)))"
  proof (cases "?t = []")
    case True
    then show ?thesis by (simp add: eq)
  next
    case False
    with strip_ends[of sub_name] have e: "\<not> isspace (hd ?t)" "\<not> isspace (last ?t)" by auto
    from collapse_hd[OF False e(1)] collapse_last[OF False e(2), of False] e show ?thesis
      by (simp add: eq)
  qed
  show "single_spaced (clean_sub sub_name)"
    using collapse_spacing[of False ?t] by (simp add: eq)
  show "\<forall>c \<in> set (clean_sub sub_name). isword c \<or> c = 44 \<or> c = 45 \<or> c = 32"
    using cls by (simp add: eq)
qed

lemma report_text_extracted:
  "extract_doses_from_text report_text =
     [\<lparr>substance = ascii ''foo bar, baz-1'', dose = ascii ''12.5 MG'', method = ascii ''oral''\<rparr>,
      \<lparr>substance = ascii ''q'', dose = ascii ''3 g'', method = ascii ''iv''\<rparr>]"
  by (simp add: report_text_def text_eval regex_eval extract_eval)

lemma dotted_route_extracted:
  "extract_doses_from_text dotted_route_text =
     [\<lparr>substance = ascii ''heroin'', dose = ascii ''5 mg'', method = [105, 775, 118]\<rparr>]"
  by (simp add: dotted_route_text_def text_eval regex_eval extract_eval)

lemma lower_route_words:
  "map lower route_words = map ascii
     [''oral'', ''im'', ''iv'', ''sc'', ''intranasal'', ''smoked'', ''insufflated'', ''rectal'',
      ''subcutaneous'', ''intravenous'', ''buccal'', ''sublingual'', ''intramuscular'',
      ''intravenous'', ''subcutaneous'']"
  by (simp add: route_words_def text_eval)

text \<open>
  The digits of a dose need not be those of ASCII: \<open>\d\<close> matches the decimal digits of
  every script, and \<open>float\<close> reads them.
\<close>

lemma arabic_digits_extracted:
  "extract_doses_from_text arabic_digits_text =
     [\<lparr>substance = ascii ''LSD'', dose = [1634, 46, 1637, 32, 109, 103], method = ascii ''oral''\<rparr>]"
  by (simp add: arabic_digits_text_def text_eval regex_eval extract_eval)

lemma arabic_digits_parsed:
  "parse_dose [1634, 46, 1637, 32, 109, 103] = Some (5 / 2, ascii ''mg'')"
  by (simp add: parse_dose_def text_eval regex_eval float_eval)

text \<open>
  C9, as the code has it. \<open>extract_doses_from_text\<close> is a function of the text. In every
  record that it returns, the dose is a numeral, a space and a unit token that one of the
  unit alternatives matches, case-insensitively, as it stands in the text. The method is the
  lower case of a token that one of the route alternatives matches case-insensitively: a
  lower-cased route word in which an \<open>i\<close> may stand as the dotless i or as \<open>i\<close> with the
  combining dot above, and an \<open>s\<close> as the long s; it is one of the lower-cased route words
  themselves whenever it is ASCII. The substance has no white space at its ends, no two
  white-space characters in a row, and only word characters, commas, hyphens and spaces.
\<close>

theorem extracted_record_shape:
  assumes "r \<in> set (extract_doses_from_text t)"
  shows "(\<exists>dose_amount unit. dose r = dose_amount @ ascii '' '' @ unit \<and> is_numeral dose_amount \<and>
            (\<exists>w \<in> set unit_words. list_all2 ci_char w unit)) \<and>
         (\<exists>route. method r = lower route \<and> (\<exists>w \<in> set route_words. list_all2 ci_char w route)) \<and>
         (\<exists>w \<in> set route_words. method r \<in> set (word_forms (lower w))) \<and>
         ((\<forall>c \<in> set (method r). c < 128) \<longrightarrow> method r \<in> set (map lower route_words)) \<and>
         (substance r = [] \<or> (\<not> isspace (hd (substance r)) \<and> \<not> isspace (last (substance r)))) \<and>
         single_spaced (substance r) \<and>
         (\<forall>c \<in> set (substance r). isword c \<or> c = 44 \<or> c = 45 \<or> c = 32)"
proof -
  from assms obtain g where g: "g \<in> set (findall 0 t)" "r = make_record g"
    by (auto simp: extract_doses_from_text_def)
  obtain dose_amount unit route sub_name where gg: "g = (dose_amount, unit, route, sub_name)"
    by (cases g)
  from findall_set[OF g(1)] obtain s rest others where
    "dose_pattern s = (g, rest) # others" by blast
  then have "((dose_amount, unit, route, sub_name), rest) \<in> set (dose_pattern s)"
    by (simp add: gg)
  from dose_pattern_set[OF this] have
    n: "is_numeral dose_amount" and
    u: "\<exists>w \<in> set unit_words. list_all2 ci_char w unit" and
    m: "\<exists>w \<in> set route_words. list_all2 ci_char w route" and
    c: "\<forall>c \<in> set sub_name. sub_class c"
    by blast+
  have r: "substance r = clean_sub sub_name" "dose r = dose_amount @ ascii '' '' @ unit"
    "method r = lower route"
    by (simp_all add: g(2) gg make_record_def)
  from m obtain w where w: "w \<in> set route_words" "list_all2 ci_char w route" by blast
  from w(1) route_words_letters have l: "\<forall>p \<in> set w. ascii_letter p" by blast
  from lower_forms[OF w(2) l] w(1) have
    f: "\<exists>w \<in> set route_words. method r \<in> set (word_forms (lower w))"
    unfolding r by blast
  have a: "method r \<in> set (map lower route_words)" if "\<forall>c \<in> set (method r). c < 128"
  proof -
    from lower_ci[OF w(2) l] that have "lower route = lower w" by (simp add: r(3))
    with w(1) show ?thesis by (simp add: r(3))
  qed
  note s = clean_sub_shape(2,3,4)[OF c]
  from n u m f a s show ?thesis
    unfolding r by blast
qed

theorem extracted_record_shape_witness:
  "\<lparr>substance = ascii ''foo bar, baz-1'', dose = ascii ''12.5 MG'', method = ascii ''oral''\<rparr>
     \<in> set (extract_doses_from_text report_text) \<and>
   ascii ''oral'' \<in> set (map lower route_words) \<and>
   single_spaced (ascii ''foo bar, baz-1'') \<and>
   \<lparr>substance = ascii ''heroin'', dose = ascii ''5 mg'', method = [105, 775, 118]\<rparr>
     \<in> set (extract_doses_from_text dotted_route_text) \<and>
   (\<exists>w \<in> set route_words. [105, 775, 118] \<in> set (word_forms (lower w)))"
proof -
  let ?r = "\<lparr>substance = ascii ''foo bar, baz-1'', dose = ascii ''12.5 MG'', method = ascii ''oral''\<rparr>"
  let ?d = "\<lparr>substance = ascii ''heroin'', dose = ascii ''5 mg'', method = [105, 775, 118]\<rparr>"
  have m: "?r \<in> set (extract_doses_from_text report_text)"
    by (simp add: report_text_extracted)
  have d: "?d \<in> set (extract_doses_from_text dotted_route_text)"
    by (simp add: dotted_route_extracted)
  have "\<forall>c \<in> set (ascii ''oral''). c < 128"
    by (simp add: ascii_def)
  with extracted_record_shape[OF m] extracted_record_shape[OF d] m d show ?thesis by simp
qed

text \<open>
  C9, as the specification states it, fails on the dose whose route is written with the
  capital I with dot: the route alternative \<open>IV\<close> matches it case-insensitively, and the
  method of the record is its lower case, \<open>i\<close> with the combining dot above and \<open>v\<close>, which
  is none of the lower-cased route words.
\<close>

theorem extracted_record_shape_counterexample:
  "map method (extract_doses_from_text dotted_route_text) = [[105, 775, 118]] \<and>
   [105, 775, 118] \<notin> set (map lower route_words)"
  by (simp add: dotted_route_extracted lower_route_words ascii_def)

section \<open>From extraction to analysis\<close>

lemma greek_mu_extracted:
  "extract_doses_from_text greek_mu_text =
     [\<lparr>substance = ascii ''LSD'', dose = [53, 32, 956, 103], method = ascii ''oral''\<rparr>]"
  by (simp add: greek_mu_text_def text_eval regex_eval extract_eval)

lemma greek_mu_unparsed: "parse_dose [53, 32, 956, 103] = None"
  by (simp add: parse_dose_def text_eval regex_eval)

text \<open>
  C10 fails on this text. The case-insensitive pattern of the extractor takes the Greek mu
  for the micro sign of \<open>\<mu>g\<close> and yields the dose \<open>5 \<mu>g\<close>; the pattern of \<open>analyze_doses\<close>
  is case-sensitive, its class \<open>[a-z\<mu>]\<close> holds the micro sign only, and the dose is
  discarded: \<open>analyze_doses\<close> returns \<open>None\<close> on the doses of the extractor.
\<close>

theorem greek_mu_dose_discarded:
  "map dose (extract_doses_from_text greek_mu_text) = [[53, 32, 956, 103]] \<and>
   parse_dose [53, 32, 956, 103] = None \<and>
   analyze_doses (map dose (extract_doses_from_text greek_mu_text)) = None"
  by (simp add: greek_mu_extracted greek_mu_unparsed analyze_doses_def parse_doses_def
      List.map_filter_simps)

end
